theory Spec2Isabelle
  imports Complex_Main
begin

section \<open>JavaScript strings and numbers\<close>

text \<open>
  A JavaScript string is a sequence of UTF-16 code units. The code units are kept as
  natural numbers, so that \<open>trim\<close> can be given its full set of white space and the
  separators \<open>#\<close> (35), \<open>?\<close> (63) and \<open>_\<close> (95) are ordinary list elements.
  \<open>lit\<close> reads an ASCII literal of the source as code units.
\<close>

type_synonym code_unit = nat
type_synonym js_string = "code_unit list"

definition lit :: "string \<Rightarrow> js_string" where
  "lit s = map of_char s"

text \<open>
  \<open>${doc.page}\<close>: the decimal rendering of a number. Page numbers are integers
  (\<open>pageNumber\<close> of the data model); for an integer below \<open>10^21\<close> in absolute value
  JavaScript prints the decimal digits, with a leading minus sign when negative.
\<close>

fun digits :: "nat \<Rightarrow> js_string" where
  "digits n = (if n < 10 then [48 + n] else digits (n div 10) @ [48 + n mod 10])"

declare digits.simps [simp del]

definition number_to_string :: "int \<Rightarrow> js_string" where
  "number_to_string n = (if n < 0 then 45 # digits (nat (- n)) else digits (nat n))"

text \<open>
  \<open>s.split(sep)\<close> for a one-character separator: the pieces between the occurrences
  of the separator. The result is never empty, so \<open>[0]\<close> is its head.
\<close>

fun split :: "code_unit \<Rightarrow> js_string \<Rightarrow> js_string list" where
  "split sep [] = [[]]"
| "split sep (c # cs) =
     (if c = sep then [] # split sep cs
      else (case split sep cs of [] \<Rightarrow> [[c]] | p # ps \<Rightarrow> (c # p) # ps))"

text \<open>JavaScript truthiness of the result of \<open>Map.get\<close> on a map of strings:
  \<open>undefined\<close> and the empty string are falsy.\<close>

fun truthy :: "js_string option \<Rightarrow> bool" where
  "truthy None = False"
| "truthy (Some s) = (s \<noteq> [])"

text \<open>
  \<open>String.prototype.trim\<close> removes the white space and line terminators of ECMAScript
  from both ends: TAB, LF, VT, FF, CR, SP, NBSP, U+1680, U+2000 to U+200A, U+2028,
  U+2029, U+202F, U+205F, U+3000 and U+FEFF.
\<close>

definition is_whitespace :: "code_unit \<Rightarrow> bool" where
  "is_whitespace c =
     (c \<in> {9, 10, 11, 12, 13, 32, 160, 5760, 8232, 8233, 8239, 8287, 12288, 65279}
      \<or> (8192 \<le> c \<and> c \<le> 8202))"

definition trim :: "js_string \<Rightarrow> js_string" where
  "trim s = rev (dropWhile is_whitespace (rev (dropWhile is_whitespace s)))"

text \<open>\<open>s.includes(t)\<close>: \<open>t\<close> occurs in \<open>s\<close> as a contiguous substring.\<close>

fun js_includes :: "js_string \<Rightarrow> js_string \<Rightarrow> bool" where
  "js_includes [] t = (t = [])"
| "js_includes (c # cs) t = (take (length t) (c # cs) = t \<or> js_includes cs t)"

text \<open>
  A thrown value: an \<open>Error\<close> instance with its message, or any other value
  (\<open>error instanceof Error\<close> is false for it).
\<close>

datatype thrown = Error js_string | NonError

text \<open>How a promise settles.\<close>

datatype settled = Fulfilled | Rejected thrown

section \<open>Data model (page.tsx, lines 9-34)\<close>

record DocumentPreview =
  url :: js_string
  page :: int
  title :: js_string
  previewUrl :: "js_string option"
  largePreviewUrl :: "js_string option"

text \<open>An entry of \<open>ChatResponse.documents\<close>: the citation as the backend sends it.\<close>

record Citation =
  c_title :: js_string
  c_url :: js_string
  c_page :: int

datatype role = User | Assistant

record Message =
  role :: role
  content :: js_string
  documents :: "DocumentPreview list option"

text \<open>
  \<open>ChatResponse\<close> as TypeScript declares it; \<open>documents_r\<close> is \<open>None\<close> when the field
  is not an array (\<open>Array.isArray\<close> at line 178).
\<close>

record ChatResponse =
  text_r :: js_string
  images_r :: "js_string list"
  experts_r :: "js_string list"
  documents_r :: "Citation list option"

text \<open>The outer envelope of the reply; \<open>response\<close> is \<open>None\<close> when the field is missing.\<close>

record RawData =
  response :: "js_string option"

record http_response =
  ok :: bool
  status :: int
  responseText :: js_string

text \<open>The eight \<open>useState\<close> cells of \<open>Home\<close> (lines 48-55).\<close>

record home_state =
  messages :: "Message list"
  input :: js_string
  isLoading :: bool
  previews :: "js_string \<rightharpoonup> js_string"
  largePreviews :: "js_string \<rightharpoonup> js_string"
  loadingPreviews :: "js_string set"
  previewErrors :: "js_string \<rightharpoonup> js_string"
  selectedPreview :: "DocumentPreview option"

definition initial_state :: home_state where
  "initial_state =
     \<lparr>messages = [], input = [], isLoading = False, previews = Map.empty,
      largePreviews = Map.empty, loadingPreviews = {}, previewErrors = Map.empty,
      selectedPreview = None\<rparr>"

section \<open>The environment: the PDF engine, the browser and the chat backend\<close>

text \<open>
  The code consumes \<open>pdfjs-dist\<close>, the DOM canvas and \<open>fetch\<close>; none of them is part of
  the repository, so they are parameters. Each awaited promise either resolves or
  rejects with a thrown value.
\<close>

record viewport =
  vscale :: real
  vwidth :: real
  vheight :: real

text \<open>A canvas element: its size and what has been painted on it.\<close>

record 'page canvas =
  width :: real
  height :: real
  painted :: "('page \<times> viewport) option"

record ('pdf, 'page) pdfjs =
  getDocument :: "js_string \<Rightarrow> thrown + 'pdf"
  numPages :: "'pdf \<Rightarrow> int"
  getPage :: "'pdf \<Rightarrow> int \<Rightarrow> thrown + 'page"
  getViewport :: "'page \<Rightarrow> real \<Rightarrow> viewport"
  render :: "'page \<Rightarrow> viewport \<Rightarrow> thrown option"

text \<open>
  \<open>hasWindow\<close> is \<open>typeof window !== 'undefined'\<close>; \<open>importPdfjs\<close> is the dynamic
  \<open>import('pdfjs-dist')\<close>; \<open>getContext\<close> tells whether \<open>canvas.getContext('2d')\<close> yields a
  context; \<open>toDataURL\<close> encodes a canvas.
\<close>

record ('pdf, 'page) browser =
  hasWindow :: bool
  importPdfjs :: "thrown + ('pdf, 'page) pdfjs"
  getContext :: "'page canvas \<Rightarrow> bool"
  toDataURL :: "'page canvas \<Rightarrow> js_string"

text \<open>
  The chat backend and \<open>JSON.parse\<close>, read at the types the source gives their results:
  \<open>fetch\<close> stands for the request and \<open>response.text()\<close>; a parse is \<open>None\<close> when
  \<open>JSON.parse\<close> throws.
\<close>

record backend =
  fetch :: "js_string \<Rightarrow> thrown + http_response"
  parseRawData :: "js_string \<Rightarrow> RawData option"
  parseChatResponse :: "js_string \<Rightarrow> ChatResponse option"

text \<open>What a handler does to the world outside the component state.\<close>

datatype ('pdf, 'page) event =
    GetDocument js_string
  | GetPage 'pdf int
  | RenderPage 'page viewport
  | PreventDefault
  | Fetch js_string
  | WindowOpen js_string

section \<open>Preview key derivation\<close>

text \<open>\<open>doc.url.split('#')[0].split('?')[0]\<close> (lines 186 and 227).\<close>

definition cleanUrl :: "js_string \<Rightarrow> js_string" where
  "cleanUrl u = hd (split 63 (hd (split 35 u)))"

text \<open>The template literal \<open>`${url}_${page}`\<close> (lines 61, 190, 228, 296).\<close>

definition key_of :: "js_string \<Rightarrow> int \<Rightarrow> js_string" where
  "key_of u p = u @ [95] @ number_to_string p"

text \<open>Line 61: the key \<open>generatePreview\<close> uses for a document of a message.\<close>

definition previewKey :: "DocumentPreview \<Rightarrow> js_string" where
  "previewKey doc = key_of (url doc) (page doc)"

text \<open>
  Lines 185-192: how \<open>handleSubmit\<close> turns a citation of the response into a document
  of the assistant message; \<open>pv\<close> is the \<open>previews\<close> map of the submitting render.
\<close>

definition toDocument :: "(js_string \<rightharpoonup> js_string) \<Rightarrow> Citation \<Rightarrow> DocumentPreview" where
  "toDocument pv c =
     (let cleaned = cleanUrl (c_url c) in
      \<lparr>url = cleaned, page = c_page c, title = c_title c,
       previewUrl = pv (key_of cleaned (c_page c)), largePreviewUrl = None\<rparr>)"

text \<open>
  The key under which a citation is cached: the citation enters the message list through
  \<open>toDocument\<close> and \<open>generatePreview\<close> then keys it with \<open>previewKey\<close>.
\<close>

definition deriveKey :: "Citation \<Rightarrow> js_string" where
  "deriveKey c = previewKey (toDocument Map.empty c)"

text \<open>A decoration is nothing, a fragment \<open>#...\<close> or a query \<open>?...\<close>.\<close>

definition decoration :: "js_string \<Rightarrow> bool" where
  "decoration d = (d = [] \<or> hd d = 35 \<or> hd d = 63)"

definition undecorated :: "js_string \<Rightarrow> bool" where
  "undecorated b = (35 \<notin> set b \<and> 63 \<notin> set b)"

section \<open>Preview generation (page.tsx, lines 38-119)\<close>

text \<open>
  Lines 38-45. Without a window the result is \<open>null\<close>; with one, the engine module is
  imported, and a failed import rejects the promise.
\<close>

definition configurePdfjs ::
  "('pdf, 'page) browser \<Rightarrow> thrown + ('pdf, 'page) pdfjs option" where
  "configurePdfjs b =
     (if hasWindow b
      then (case importPdfjs b of Inl e \<Rightarrow> Inl e | Inr lib \<Rightarrow> Inr (Some lib))
      else Inr None)"

text \<open>
  Lines 64-69, the updater passed to \<open>setLoadingPreviews\<close>. \<open>prev\<close> is the current set;
  \<open>pv\<close> is the \<open>previews\<close> map of the render whose closure made the call. Returning
  \<open>prev\<close> leaves the set as it is; it does not leave \<open>generatePreview\<close>.
\<close>

definition markPending ::
  "(js_string \<rightharpoonup> js_string) \<Rightarrow> js_string \<Rightarrow> js_string set \<Rightarrow> js_string set" where
  "markPending pv k prev = (if k \<in> prev \<or> truthy (pv k) then prev else insert k prev)"

text \<open>
  Lines 72-106, the body of the \<open>try\<close> up to the last \<open>await\<close>: the calls made to the
  engine, in order, and either the thrown value or the two painted canvases.
\<close>

definition renderPages ::
  "('pdf, 'page) browser \<Rightarrow> ('pdf, 'page) pdfjs \<Rightarrow> DocumentPreview \<Rightarrow>
   ('pdf, 'page) event list \<times> (thrown + 'page canvas \<times> 'page canvas)" where
  "renderPages b lib doc =
     (case getDocument lib (url doc) of
        Inl e \<Rightarrow> ([GetDocument (url doc)], Inl e)
      | Inr pdf \<Rightarrow>
         (case getPage lib pdf (page doc) of
            Inl e \<Rightarrow> ([GetDocument (url doc), GetPage pdf (page doc)], Inl e)
          | Inr pg \<Rightarrow>
             (let opened = [GetDocument (url doc), GetPage pdf (page doc)];
                  smallViewport = getViewport lib pg 0.5;
                  smallCanvas = \<lparr>width = vwidth smallViewport,
                                 height = vheight smallViewport, painted = None\<rparr>
              in if \<not> getContext b smallCanvas
                 then (opened, Inl (Error (lit ''Failed to get small canvas context'')))
                 else
                   (case render lib pg smallViewport of
                      Some e \<Rightarrow> (opened @ [RenderPage pg smallViewport], Inl e)
                    | None \<Rightarrow>
                       (let largeViewport = getViewport lib pg 1.5;
                            largeCanvas = \<lparr>width = vwidth largeViewport,
                                           height = vheight largeViewport, painted = None\<rparr>
                        in if \<not> getContext b largeCanvas
                           then (opened @ [RenderPage pg smallViewport],
                                 Inl (Error (lit ''Failed to get large canvas context'')))
                           else
                             (case render lib pg largeViewport of
                                Some e \<Rightarrow>
                                  (opened @ [RenderPage pg smallViewport,
                                             RenderPage pg largeViewport], Inl e)
                              | None \<Rightarrow>
                                  (opened @ [RenderPage pg smallViewport,
                                             RenderPage pg largeViewport],
                                   Inr (smallCanvas\<lparr>painted := Some (pg, smallViewport)\<rparr>,
                                        largeCanvas\<lparr>painted := Some (pg, largeViewport)\<rparr>))))))))"

text \<open>Line 111: \<open>error instanceof Error ? error.message : 'Unknown error'\<close>.\<close>

definition error_message :: "thrown \<Rightarrow> js_string" where
  "error_message e = (case e of Error m \<Rightarrow> m | NonError \<Rightarrow> lit ''Unknown error'')"

text \<open>
  Lines 61-69, what \<open>generatePreview\<close> does to the state before its first \<open>await\<close> on
  the engine: the key is marked as loading.
\<close>

definition beginPreview ::
  "(js_string \<rightharpoonup> js_string) \<Rightarrow> js_string \<Rightarrow> home_state \<Rightarrow> home_state" where
  "beginPreview pv k st = st\<lparr>loadingPreviews := markPending pv k (loadingPreviews st)\<rparr>"

text \<open>
  Lines 108-117, what it does after the last \<open>await\<close>: on success both caches get their
  data URL, on failure the error map gets the message, and in either case the
  \<open>finally\<close> takes the key out of the loading set. No \<open>await\<close> separates these updates.
\<close>

definition settlePreview ::
  "('pdf, 'page) browser \<Rightarrow> js_string \<Rightarrow> thrown + 'page canvas \<times> 'page canvas \<Rightarrow>
   home_state \<Rightarrow> home_state" where
  "settlePreview b k r st =
     (let st' = (case r of
                   Inr (smallCanvas, largeCanvas) \<Rightarrow>
                     st\<lparr>previews := (previews st)(k \<mapsto> toDataURL b smallCanvas),
                        largePreviews := (largePreviews st)(k \<mapsto> toDataURL b largeCanvas)\<rparr>
                 | Inl e \<Rightarrow>
                     st\<lparr>previewErrors := (previewErrors st)(k \<mapsto> error_message e)\<rparr>)
      in st'\<lparr>loadingPreviews := loadingPreviews st' - {k}\<rparr>)"

text \<open>
  Lines 57-119, run from the call to the end of the \<open>finally\<close>. The result is the calls
  made to the engine, how the promise settles and the state. \<open>pv\<close> is the \<open>previews\<close> map
  that the closure of the call holds (line 65 reads it outside the updater); every other
  access to the stores is a functional update of the current state.
\<close>

definition generatePreview ::
  "('pdf, 'page) browser \<Rightarrow> (js_string \<rightharpoonup> js_string) \<Rightarrow> DocumentPreview \<Rightarrow> home_state \<Rightarrow>
   ('pdf, 'page) event list \<times> settled \<times> home_state" where
  "generatePreview b pv doc st =
     (case configurePdfjs b of
        Inl e \<Rightarrow> ([], Rejected e, st)
      | Inr None \<Rightarrow> ([], Fulfilled, st)
      | Inr (Some lib) \<Rightarrow>
         (let k = previewKey doc;
              st1 = beginPreview pv k st;
              (calls, r) = renderPages b lib doc
          in (calls, Fulfilled, settlePreview b k r st1)))"

text \<open>The three components of the result of \<open>generatePreview\<close>.\<close>

definition calls_made ::
  "('pdf, 'page) browser \<Rightarrow> (js_string \<rightharpoonup> js_string) \<Rightarrow> DocumentPreview \<Rightarrow> home_state \<Rightarrow>
   ('pdf, 'page) event list" where
  "calls_made b pv doc st = fst (generatePreview b pv doc st)"

definition promise_of ::
  "('pdf, 'page) browser \<Rightarrow> (js_string \<rightharpoonup> js_string) \<Rightarrow> DocumentPreview \<Rightarrow> home_state \<Rightarrow> settled" where
  "promise_of b pv doc st = fst (snd (generatePreview b pv doc st))"

definition state_after ::
  "('pdf, 'page) browser \<Rightarrow> (js_string \<rightharpoonup> js_string) \<Rightarrow> DocumentPreview \<Rightarrow> home_state \<Rightarrow> home_state" where
  "state_after b pv doc st = snd (snd (generatePreview b pv doc st))"

text \<open>
  Lines 240-250: on every change of the message list, every document of every message
  is handed to \<open>generatePreview\<close>; the promises are dropped. All calls share the closure
  of the render that scheduled the effect, hence its \<open>previews\<close> map. The calls are run
  one after the other, in message order.
\<close>

definition all_documents :: "Message list \<Rightarrow> DocumentPreview list" where
  "all_documents ms =
     concat (map (\<lambda>m. case documents m of None \<Rightarrow> [] | Some ds \<Rightarrow> ds) ms)"

fun submitAll ::
  "('pdf, 'page) browser \<Rightarrow> (js_string \<rightharpoonup> js_string) \<Rightarrow> DocumentPreview list \<Rightarrow> home_state \<Rightarrow>
   ('pdf, 'page) event list \<times> home_state" where
  "submitAll b pv [] st = ([], st)"
| "submitAll b pv (doc # docs) st =
     (case generatePreview b pv doc st of
        (calls, _, st') \<Rightarrow>
          (case submitAll b pv docs st' of (calls', st'') \<Rightarrow> (calls @ calls', st'')))"

definition previewEffect ::
  "('pdf, 'page) browser \<Rightarrow> home_state \<Rightarrow> ('pdf, 'page) event list \<times> home_state" where
  "previewEffect b st = submitAll b (previews st) (all_documents (messages st)) st"

section \<open>The thumbnail and the modal (lines 221-238 and 295-334)\<close>

datatype thumbnail = OpenThePdf | Spinner | Nothing | Thumbnail js_string

text \<open>Lines 296-334: what the message list shows for a document.\<close>

definition thumbnailView :: "home_state \<Rightarrow> DocumentPreview \<Rightarrow> thumbnail" where
  "thumbnailView st doc =
     (let k = previewKey doc;
          preview = previews st k;
          loading = (k \<in> loadingPreviews st);
          err = previewErrors st k
      in if truthy err then OpenThePdf
         else if loading then Spinner
         else (case preview of
                 None \<Rightarrow> Nothing
               | Some u \<Rightarrow> if u = [] then Nothing else Thumbnail u))"

text \<open>Lines 226-238.\<close>

definition handlePreviewClick :: "DocumentPreview \<Rightarrow> home_state \<Rightarrow> home_state" where
  "handlePreviewClick doc st =
     (let cleaned = cleanUrl (url doc);
          k = key_of cleaned (page doc);
          large = largePreviews st k
      in if truthy large
         then st\<lparr>selectedPreview := Some (doc\<lparr>url := cleaned, largePreviewUrl := large\<rparr>)\<rparr>
         else st)"

text \<open>Lines 221-224.\<close>

definition handleDocumentClick :: "DocumentPreview \<Rightarrow> ('pdf, 'page) event list" where
  "handleDocumentClick doc =
     (let u = (if js_includes (url doc) [63] then hd (split 63 (url doc)) else url doc)
      in [WindowOpen (u @ lit ''#page='' @ number_to_string (page doc))])"

section \<open>Submitting a question (lines 121-219)\<close>

text \<open>Lines 133-193, the body of the \<open>try\<close>: the assistant message, or what is thrown.\<close>

definition askBackend ::
  "backend \<Rightarrow> (js_string \<rightharpoonup> js_string) \<Rightarrow> js_string \<Rightarrow> thrown + Message" where
  "askBackend be pv question =
     (case fetch be question of
        Inl e \<Rightarrow> Inl e
      | Inr resp \<Rightarrow>
         if \<not> ok resp
         then Inl (Error (lit ''Erreur serveur: '' @ number_to_string (status resp)
                          @ lit '' - '' @ responseText resp))
         else
           (case parseRawData be (responseText resp) of
              None \<Rightarrow>
                Inl (Error (lit ''Impossible de parser la r'' @ [233] @ lit ''ponse: ''
                            @ responseText resp))
            | Some rawData \<Rightarrow>
               (case response rawData of
                  None \<Rightarrow>
                    Inl (Error (lit ''La r'' @ [233] @ lit ''ponse ne contient pas le champ ''
                                @ [34] @ lit ''response'' @ [34] @ lit '' attendu''))
                | Some inner \<Rightarrow>
                   if inner = []
                   then Inl (Error (lit ''La r'' @ [233] @ lit ''ponse ne contient pas le champ ''
                                    @ [34] @ lit ''response'' @ [34] @ lit '' attendu''))
                   else
                     (case parseChatResponse be inner of
                        None \<Rightarrow>
                          Inl (Error (lit ''Format de r'' @ [233] @ lit ''ponse invalide''))
                      | Some data \<Rightarrow>
                         (case documents_r data of
                            None \<Rightarrow>
                              Inl (Error (lit ''Format de r'' @ [233]
                                          @ lit ''ponse invalide: champs manquants ou invalides''))
                          | Some docs \<Rightarrow>
                             if text_r data = []
                             then Inl (Error (lit ''Format de r'' @ [233]
                                       @ lit ''ponse invalide: champs manquants ou invalides''))
                             else Inr \<lparr>role = Assistant, content = text_r data,
                                       documents = Some (map (toDocument pv) docs)\<rparr>)))))"

text \<open>Lines 198-209: the text shown when the \<open>try\<close> throws.\<close>

definition failureText :: "thrown \<Rightarrow> js_string" where
  "failureText e =
     (let fallback = lit ''D'' @ [233] @ lit ''sol'' @ [233]
            @ lit '', une erreur est survenue lors de la communication avec le serveur.''
      in case e of
           NonError \<Rightarrow> fallback
         | Error m \<Rightarrow>
             if js_includes m (lit ''Failed to fetch'') \<or> js_includes m (lit ''NetworkError'')
             then lit ''Impossible de se connecter au serveur. Veuillez v'' @ [233]
                  @ lit ''rifier votre connexion et les param'' @ [232] @ lit ''tres CORS.''
             else if js_includes m (lit ''Erreur serveur'')
             then lit ''Le serveur a rencontr'' @ [233] @ lit '' une erreur. '' @ m
             else if js_includes m (lit ''parsing'')
             then lit ''Le serveur a renvoy'' @ [233] @ lit '' une r'' @ [233]
                  @ lit ''ponse invalide. L'' @ [39, 233] @ lit ''quipe technique a ''
                  @ [233] @ lit ''t'' @ [233] @ lit '' notifi'' @ [233] @ lit ''e.''
             else fallback)"

text \<open>
  Lines 121-219, run to the end of the \<open>finally\<close>. \<open>input\<close> and \<open>previews\<close> are read from
  the state the form was submitted in.
\<close>

definition handleSubmit ::
  "backend \<Rightarrow> home_state \<Rightarrow> ('pdf, 'page) event list \<times> home_state" where
  "handleSubmit be st =
     (if trim (input st) = [] then ([PreventDefault], st)
      else
        (let userMessage = \<lparr>role = User, content = input st, documents = None\<rparr>;
             st1 = st\<lparr>messages := messages st @ [userMessage], isLoading := True\<rparr>;
             reply = (case askBackend be (previews st) (input st) of
                        Inr assistantMessage \<Rightarrow> assistantMessage
                      | Inl e \<Rightarrow> \<lparr>role = Assistant, content = failureText e,
                                  documents = None\<rparr>);
             st2 = st1\<lparr>messages := messages st1 @ [reply]\<rparr>
         in ([PreventDefault, Fetch (input st)], st2\<lparr>isLoading := False, input := []\<rparr>)))"

section \<open>Every operation of the component\<close>

text \<open>
  The handlers, the effect and the state setters of the page. A call of
  \<open>generatePreview\<close> is there as a whole and also in its two halves, before and after
  the awaited rendering, so that the calls of several documents may overlap.
\<close>

datatype operation =
    Submit
  | ChangeInput js_string
  | RunPreviewEffect
  | CallGeneratePreview "js_string \<rightharpoonup> js_string" DocumentPreview
  | BeginGeneratePreview "js_string \<rightharpoonup> js_string" DocumentPreview
  | SettleGeneratePreview DocumentPreview
  | PreviewClick DocumentPreview
  | DocumentClick DocumentPreview
  | CloseModal

fun perform ::
  "('pdf, 'page) browser \<Rightarrow> backend \<Rightarrow> operation \<Rightarrow> home_state \<Rightarrow> home_state" where
  "perform b be Submit st = snd (handleSubmit be st :: ('pdf, 'page) event list \<times> home_state)"
| "perform b be (ChangeInput s) st = st\<lparr>input := s\<rparr>"
| "perform b be RunPreviewEffect st = snd (previewEffect b st)"
| "perform b be (CallGeneratePreview pv doc) st = state_after b pv doc st"
| "perform b be (BeginGeneratePreview pv doc) st =
     (case configurePdfjs b of
        Inr (Some lib) \<Rightarrow> beginPreview pv (previewKey doc) st
      | _ \<Rightarrow> st)"
| "perform b be (SettleGeneratePreview doc) st =
     (case configurePdfjs b of
        Inr (Some lib) \<Rightarrow> settlePreview b (previewKey doc) (snd (renderPages b lib doc)) st
      | _ \<Rightarrow> st)"
| "perform b be (PreviewClick doc) st = handlePreviewClick doc st"
| "perform b be (DocumentClick doc) st = st"
| "perform b be CloseModal st = st\<lparr>selectedPreview := None\<rparr>"

section \<open>Notions the properties are stated with\<close>

text \<open>
  An engine that refuses every page number beyond the page count of the document, as
  \<open>getPage\<close> of pdf.js does and as section 4.3 of the spec expects of the renderer.
\<close>

definition rejects_pages_beyond_count :: "('pdf, 'page) pdfjs \<Rightarrow> bool" where
  "rejects_pages_beyond_count lib =
     (\<forall>pdf n. numPages lib pdf < n \<longrightarrow> (\<exists>e. getPage lib pdf n = Inl e))"

text \<open>Every error the engine raises says something: its message is not empty.\<close>

definition engine_errors_have_messages :: "('pdf, 'page) pdfjs \<Rightarrow> bool" where
  "engine_errors_have_messages lib =
     ((\<forall>u e. getDocument lib u = Inl e \<longrightarrow> error_message e \<noteq> []) \<and>
      (\<forall>pdf n e. getPage lib pdf n = Inl e \<longrightarrow> error_message e \<noteq> []) \<and>
      (\<forall>pg vp e. render lib pg vp = Some e \<longrightarrow> error_message e \<noteq> []))"

text \<open>\<open>toDataURL\<close> of a browser never yields the empty string: it starts with \<open>data:\<close>.\<close>

definition data_urls_nonempty :: "('pdf, 'page) browser \<Rightarrow> bool" where
  "data_urls_nonempty b = (\<forall>c. toDataURL b c \<noteq> [])"

text \<open>A key is Ready when both of its bitmaps are cached.\<close>

definition ready :: "home_state \<Rightarrow> js_string \<Rightarrow> bool" where
  "ready st k = (truthy (previews st k) \<and> truthy (largePreviews st k))"

text \<open>
  A key is Failed and nothing else: it has an entry in the error map, no render of it
  is in flight and no bitmap of it is cached.
\<close>

definition failed_only :: "home_state \<Rightarrow> js_string \<Rightarrow> bool" where
  "failed_only st k =
     (k \<in> dom (previewErrors st) \<and> k \<notin> loadingPreviews st \<and>
      \<not> truthy (previews st k) \<and> \<not> truthy (largePreviews st k))"

text \<open>The two bitmap caches hold a usable entry for the same keys.\<close>

definition paired :: "home_state \<Rightarrow> bool" where
  "paired st = (\<forall>k. truthy (previews st k) = truthy (largePreviews st k))"

text \<open>
  The ways the render pipeline of a document can fail with \<open>e\<close>: the document does not
  open, the page is not fetched, the small canvas has no context, the small
  rasterization fails, the large canvas has no context, the large rasterization fails.
\<close>

definition pipeline_fails ::
  "('pdf, 'page) browser \<Rightarrow> ('pdf, 'page) pdfjs \<Rightarrow> DocumentPreview \<Rightarrow> thrown \<Rightarrow> bool" where
  "pipeline_fails b lib doc e =
     (getDocument lib (url doc) = Inl e \<or>
      (\<exists>pdf. getDocument lib (url doc) = Inr pdf \<and>
         (getPage lib pdf (page doc) = Inl e \<or>
          (\<exists>pg. getPage lib pdf (page doc) = Inr pg \<and>
             (let smallViewport = getViewport lib pg 0.5;
                  smallCanvas = \<lparr>width = vwidth smallViewport,
                                 height = vheight smallViewport, painted = None\<rparr>;
                  largeViewport = getViewport lib pg 1.5;
                  largeCanvas = \<lparr>width = vwidth largeViewport,
                                 height = vheight largeViewport, painted = None\<rparr>
              in if \<not> getContext b smallCanvas
                 then e = Error (lit ''Failed to get small canvas context'')
                 else if render lib pg smallViewport \<noteq> None
                 then render lib pg smallViewport = Some e
                 else if \<not> getContext b largeCanvas
                 then e = Error (lit ''Failed to get large canvas context'')
                 else render lib pg largeViewport = Some e)))))"

text \<open>
  The outcome of rendering a document is on record in a state: its two bitmaps are
  cached under its key, or the message of its failure is in the error map.
\<close>

definition recorded ::
  "('pdf, 'page) browser \<Rightarrow> ('pdf, 'page) pdfjs \<Rightarrow> DocumentPreview \<Rightarrow> home_state \<Rightarrow> bool" where
  "recorded b lib doc st =
     (case snd (renderPages b lib doc) of
        Inr (smallCanvas, largeCanvas) \<Rightarrow>
          previews st (previewKey doc) = Some (toDataURL b smallCanvas) \<and>
          largePreviews st (previewKey doc) = Some (toDataURL b largeCanvas)
      | Inl e \<Rightarrow> previewErrors st (previewKey doc) = Some (error_message e))"

section \<open>A sample environment\<close>

text \<open>
  One document, \<open>a.pdf\<close>, of five US-letter pages; every rendering succeeds. A PDF is
  identified by its locator and a page by its document and number.
\<close>

definition demo_pdfjs :: "(js_string, js_string \<times> int) pdfjs" where
  "demo_pdfjs =
     \<lparr>getDocument = (\<lambda>u. if u = lit ''a.pdf'' then Inr u
                           else Inl (Error (lit ''Missing PDF''))),
      numPages = (\<lambda>pdf. 5),
      getPage = (\<lambda>pdf n. if 1 \<le> n \<and> n \<le> 5 then Inr (pdf, n)
                           else Inl (Error (lit ''Invalid page request.''))),
      getViewport = (\<lambda>pg s. \<lparr>vscale = s, vwidth = 612 * s, vheight = 792 * s\<rparr>),
      render = (\<lambda>pg vp. None)\<rparr>"

definition demo_browser :: "(js_string, js_string \<times> int) browser" where
  "demo_browser =
     \<lparr>hasWindow = True,
      importPdfjs = Inr demo_pdfjs,
      getContext = (\<lambda>c. True),
      toDataURL = (\<lambda>c. case painted c of
                           None \<Rightarrow> lit ''data:,''
                         | Some (pg, vp) \<Rightarrow>
                             lit ''data:image/png;p'' @ number_to_string (snd pg)
                             @ (if vscale vp < 1 then lit '';small'' else lit '';large''))\<rparr>"

text \<open>The same browser once the network is gone: no document can be opened.\<close>

definition offline_browser :: "(js_string, js_string \<times> int) browser" where
  "offline_browser =
     demo_browser\<lparr>importPdfjs :=
       Inr (demo_pdfjs\<lparr>getDocument := (\<lambda>u. Inl (Error (lit ''Failed to fetch'')))\<rparr>)\<rparr>"

text \<open>The same browser with an engine that raises errors without a message.\<close>

definition mute_browser :: "(js_string, js_string \<times> int) browser" where
  "mute_browser =
     demo_browser\<lparr>importPdfjs :=
       Inr (demo_pdfjs\<lparr>getDocument := (\<lambda>u. Inl (Error []))\<rparr>)\<rparr>"

text \<open>The same browser when the engine module cannot be loaded.\<close>

definition importless_browser :: "(js_string, js_string \<times> int) browser" where
  "importless_browser =
     demo_browser\<lparr>importPdfjs := Inl (Error (lit ''Loading chunk failed''))\<rparr>"

text \<open>A backend that answers every question with one citation of \<open>a.pdf\<close>, page 1.\<close>

definition demo_backend :: backend where
  "demo_backend =
     \<lparr>fetch = (\<lambda>q. Inr \<lparr>ok = True, status = 200, responseText = lit ''raw''\<rparr>),
      parseRawData = (\<lambda>t. Some \<lparr>response = Some (lit ''inner'')\<rparr>),
      parseChatResponse = (\<lambda>t. Some \<lparr>text_r = lit ''See page 1.'', images_r = [],
          experts_r = [],
          documents_r = Some [\<lparr>c_title = lit ''A'', c_url = lit ''a.pdf#page=1'',
                                c_page = 1\<rparr>]\<rparr>)\<rparr>"

definition demo_doc :: DocumentPreview where
  "demo_doc = \<lparr>url = lit ''a.pdf'', page = 1, title = lit ''A'', previewUrl = None,
               largePreviewUrl = None\<rparr>"

text \<open>A document whose page number is beyond the five pages of \<open>a.pdf\<close>.\<close>

definition bad_doc :: DocumentPreview where
  "bad_doc = demo_doc\<lparr>page := 9999\<rparr>"

text \<open>The state once the preview of \<open>demo_doc\<close> has been generated from the initial state.\<close>

definition ready_state :: home_state where
  "ready_state = state_after demo_browser Map.empty demo_doc initial_state"

text \<open>The state while a first render of \<open>demo_doc\<close> is in flight: its key is marked.\<close>

definition pending_state :: home_state where
  "pending_state = beginPreview Map.empty (previewKey demo_doc) initial_state"

text \<open>The state once a preview of \<open>demo_doc\<close> has failed for want of a network.\<close>

definition failed_state :: home_state where
  "failed_state = state_after offline_browser Map.empty demo_doc initial_state"

text \<open>The failed state with the message that cites \<open>demo_doc\<close> in the message list.\<close>

definition failed_cited_state :: home_state where
  "failed_cited_state =
     failed_state\<lparr>messages :=
       [\<lparr>role = Assistant, content = lit ''See.'', documents = Some [demo_doc]\<rparr>]\<rparr>"

text \<open>One assistant message that cites a page that does not exist and one that does.\<close>

definition cited_state :: home_state where
  "cited_state =
     initial_state\<lparr>messages :=
       [\<lparr>role = Assistant, content = lit ''See.'', documents = Some [bad_doc, demo_doc]\<rparr>]\<rparr>"

text \<open>Two assistant messages that cite the same page.\<close>

definition twice_cited_state :: home_state where
  "twice_cited_state =
     initial_state\<lparr>messages :=
       [\<lparr>role = Assistant, content = lit ''See.'', documents = Some [demo_doc]\<rparr>,
        \<lparr>role = Assistant, content = lit ''See again.'', documents = Some [demo_doc]\<rparr>]\<rparr>"

section \<open>Lemmas on strings\<close>

lemma split_not_Nil: "split sep s \<noteq> []"
  by (induction s) (auto split: list.splits)

lemma hd_split: "hd (split sep s) = takeWhile (\<lambda>c. c \<noteq> sep) s"
proof (induction s)
  case Nil
  show ?case by simp
next
  case (Cons c cs)
  then show ?case
    using split_not_Nil [of sep cs] by (auto split: list.splits)
qed

lemma cleanUrl_takeWhile:
  "cleanUrl u = takeWhile (\<lambda>c. c \<noteq> 63) (takeWhile (\<lambda>c. c \<noteq> 35) u)"
  by (simp add: cleanUrl_def hd_split)

lemma digits_range: "c \<in> set (digits n) \<Longrightarrow> 48 \<le> c \<and> c \<le> 57"
proof (induction n rule: digits.induct)
  case (1 n)
  show ?case
  proof (cases "n < 10")
    case True
    with "1.prems" show ?thesis by (simp add: digits.simps [of n])
  next
    case False
    have "n mod 10 < 10" by simp
    with False "1.prems" "1.IH" show ?thesis
      by (auto simp: digits.simps [of n])
  qed
qed

lemma digits_not_Nil: "digits n \<noteq> []"
  by (simp add: digits.simps [of n])

lemma digits_inj: "digits m = digits n \<Longrightarrow> m = n"
proof (induction m arbitrary: n rule: digits.induct)
  case (1 m)
  show ?case
  proof (cases "m < 10")
    case m: True
    show ?thesis
    proof (cases "n < 10")
      case True
      with m "1.prems" show ?thesis
        by (simp add: digits.simps [of m] digits.simps [of n])
    next
      case False
      with m "1.prems" digits_not_Nil [of "n div 10"] show ?thesis
        by (simp add: digits.simps [of m] digits.simps [of n])
    qed
  next
    case m: False
    show ?thesis
    proof (cases "n < 10")
      case True
      with m "1.prems" digits_not_Nil [of "m div 10"] show ?thesis
        by (simp add: digits.simps [of m] digits.simps [of n])
    next
      case False
      with m "1.prems" have eq: "digits (m div 10) = digits (n div 10)"
        and r: "m mod 10 = n mod 10"
        by (simp_all add: digits.simps [of m] digits.simps [of n])
      from "1.IH" [OF m eq] have "m div 10 = n div 10" .
      with r show ?thesis
        by (metis div_mult_mod_eq)
    qed
  qed
qed

lemma number_to_string_inj: "number_to_string p = number_to_string q \<Longrightarrow> p = q"
proof -
  assume eq: "number_to_string p = number_to_string q"
  have no_minus: "\<And>n. hd (digits n) \<noteq> 45"
  proof -
    fix n
    have "hd (digits n) \<in> set (digits n)" using digits_not_Nil by simp
    then show "hd (digits n) \<noteq> 45" using digits_range by fastforce
  qed
  show ?thesis
  proof (cases "p < 0")
    case p: True
    show ?thesis
    proof (cases "q < 0")
      case True
      with p eq have "digits (nat (- p)) = digits (nat (- q))"
        by (simp add: number_to_string_def)
      then have "nat (- p) = nat (- q)" by (rule digits_inj)
      with p True show ?thesis by simp
    next
      case False
      with p eq have "45 # digits (nat (- p)) = digits (nat q)"
        by (simp add: number_to_string_def)
      then have "hd (digits (nat q)) = 45" by (metis list.sel(1))
      with no_minus show ?thesis by blast
    qed
  next
    case p: False
    show ?thesis
    proof (cases "q < 0")
      case True
      with p eq have "digits (nat p) = 45 # digits (nat (- q))"
        by (simp add: number_to_string_def)
      then have "hd (digits (nat p)) = 45" by (metis list.sel(1))
      with no_minus show ?thesis by blast
    next
      case False
      with p eq have "digits (nat p) = digits (nat q)"
        by (simp add: number_to_string_def)
      then have "nat p = nat q" by (rule digits_inj)
      with p False show ?thesis by simp
    qed
  qed
qed

lemma key_of_same_url: "key_of u p = key_of u q \<longleftrightarrow> p = q"
  by (auto simp: key_of_def dest: number_to_string_inj)

lemma cleanUrl_decorated:
  assumes "undecorated b" and "decoration d"
  shows "cleanUrl (b @ d) = b"
proof -
  have b35: "\<forall>c \<in> set b. c \<noteq> 35" and b63: "\<forall>c \<in> set b. c \<noteq> 63"
    using assms(1) by (auto simp: undecorated_def)
  show ?thesis
  proof (cases d)
    case Nil
    have t: "takeWhile (\<lambda>c. c \<noteq> 35) b = b" "takeWhile (\<lambda>c. c \<noteq> 63) b = b"
      using b35 b63 by (simp_all add: takeWhile_eq_all_conv)
    have "cleanUrl b = b"
      unfolding cleanUrl_takeWhile by (simp only: t)
    with Nil show ?thesis by simp
  next
    case (Cons x xs)
    with assms(2) have "x = 35 \<or> x = 63" by (simp add: decoration_def)
    then show ?thesis
    proof
      assume "x = 35"
      with Cons b35 b63 show ?thesis
        by (simp add: cleanUrl_takeWhile)
    next
      assume x: "x = 63"
      have "takeWhile (\<lambda>c. c \<noteq> 35) (b @ d) = b @ takeWhile (\<lambda>c. c \<noteq> 35) d"
        using b35 by simp
      moreover have "takeWhile (\<lambda>c. c \<noteq> 63) (b @ takeWhile (\<lambda>c. c \<noteq> 35) d) = b"
        using b63 x Cons by simp
      ultimately show ?thesis by (simp add: cleanUrl_takeWhile)
    qed
  qed
qed

lemma trim_blank: "list_all is_whitespace s \<Longrightarrow> trim s = []"
proof -
  assume "list_all is_whitespace s"
  then have d: "dropWhile is_whitespace s = []" by (simp add: list_all_iff)
  show ?thesis unfolding trim_def by (simp only: d rev.simps dropWhile.simps)
qed

lemma trim_Nil_iff: "trim s = [] \<longleftrightarrow> list_all is_whitespace s"
proof
  assume t: "trim s = []"
  have "dropWhile is_whitespace s = []"
  proof (rule ccontr)
    assume ne: "dropWhile is_whitespace s \<noteq> []"
    then have "\<not> is_whitespace (hd (dropWhile is_whitespace s))" by (rule hd_dropWhile)
    moreover have "hd (dropWhile is_whitespace s) \<in> set (dropWhile is_whitespace s)"
      using ne by simp
    moreover from t have "\<forall>x \<in> set (dropWhile is_whitespace s). is_whitespace x"
      by (simp add: trim_def)
    ultimately show False by blast
  qed
  then show "list_all is_whitespace s" by (simp add: list_all_iff)
next
  assume "list_all is_whitespace s"
  then show "trim s = []" by (rule trim_blank)
qed

section \<open>Lemmas on preview generation\<close>

lemma generatePreview_no_window:
  "configurePdfjs b = Inr None \<Longrightarrow> generatePreview b pv doc st = ([], Fulfilled, st)"
  by (simp add: generatePreview_def)

lemma generatePreview_import_failed:
  "configurePdfjs b = Inl e \<Longrightarrow> generatePreview b pv doc st = ([], Rejected e, st)"
  by (simp add: generatePreview_def)

lemma generatePreview_success:
  assumes "configurePdfjs b = Inr (Some lib)"
    and "renderPages b lib doc = (calls, Inr (smallCanvas, largeCanvas))"
  shows "generatePreview b pv doc st =
           (calls, Fulfilled,
            st\<lparr>loadingPreviews := markPending pv (previewKey doc) (loadingPreviews st) - {previewKey doc},
               previews := (previews st)(previewKey doc \<mapsto> toDataURL b smallCanvas),
               largePreviews := (largePreviews st)(previewKey doc \<mapsto> toDataURL b largeCanvas)\<rparr>)"
  using assms by (simp add: generatePreview_def beginPreview_def settlePreview_def Let_def)

lemma generatePreview_failure:
  assumes "configurePdfjs b = Inr (Some lib)"
    and "renderPages b lib doc = (calls, Inl e)"
  shows "generatePreview b pv doc st =
           (calls, Fulfilled,
            st\<lparr>loadingPreviews := markPending pv (previewKey doc) (loadingPreviews st) - {previewKey doc},
               previewErrors := (previewErrors st)(previewKey doc \<mapsto> error_message e)\<rparr>)"
  using assms by (simp add: generatePreview_def beginPreview_def settlePreview_def Let_def)

lemma renderPages_cases:
  obtains (success) calls smallCanvas largeCanvas
    where "renderPages b lib doc = (calls, Inr (smallCanvas, largeCanvas))"
  | (failure) calls e where "renderPages b lib doc = (calls, Inl e)"
proof (cases "renderPages b lib doc")
  case (Pair calls r)
  then show ?thesis
    by (cases r) (auto intro: that)
qed

lemma renderPages_failure_message:
  assumes "engine_errors_have_messages lib" and "renderPages b lib doc = (calls, Inl e)"
  shows "error_message e \<noteq> []"
  using assms
  by (auto simp: renderPages_def engine_errors_have_messages_def Let_def error_message_def lit_def
      split: sum.splits option.splits if_splits)

lemma renderPages_fails_iff:
  "snd (renderPages b lib doc) = Inl e \<longleftrightarrow> pipeline_fails b lib doc e"
proof (cases "getDocument lib (url doc)")
  case (Inl a)
  then show ?thesis by (auto simp: renderPages_def pipeline_fails_def)
next
  case pdf: (Inr pdf)
  show ?thesis
  proof (cases "getPage lib pdf (page doc)")
    case (Inl a)
    with pdf show ?thesis by (auto simp: renderPages_def pipeline_fails_def)
  next
    case pg: (Inr pg)
    show ?thesis
    proof (cases "render lib pg (getViewport lib pg 0.5)")
      case None
      show ?thesis
      proof (cases "render lib pg (getViewport lib pg 1.5)")
        case l: None
        with pdf pg None show ?thesis
          by (auto simp: renderPages_def pipeline_fails_def Let_def)
      next
        case l: (Some a)
        with pdf pg None show ?thesis
          by (auto simp: renderPages_def pipeline_fails_def Let_def)
      qed
    next
      case (Some a)
      with pdf pg show ?thesis
        by (auto simp: renderPages_def pipeline_fails_def Let_def)
    qed
  qed
qed

lemma state_after_success:
  assumes "configurePdfjs b = Inr (Some lib)"
    and "snd (renderPages b lib doc) = Inr (smallCanvas, largeCanvas)"
  shows "state_after b pv doc st =
            st\<lparr>loadingPreviews := markPending pv (previewKey doc) (loadingPreviews st) - {previewKey doc},
               previews := (previews st)(previewKey doc \<mapsto> toDataURL b smallCanvas),
               largePreviews := (largePreviews st)(previewKey doc \<mapsto> toDataURL b largeCanvas)\<rparr>"
proof -
  from assms(2) have "renderPages b lib doc = (fst (renderPages b lib doc), Inr (smallCanvas, largeCanvas))"
    by (metis prod.collapse)
  from generatePreview_success [OF assms(1) this] show ?thesis
    by (simp add: state_after_def)
qed

lemma state_after_failure:
  assumes "configurePdfjs b = Inr (Some lib)"
    and "snd (renderPages b lib doc) = Inl e"
  shows "state_after b pv doc st =
            st\<lparr>loadingPreviews := markPending pv (previewKey doc) (loadingPreviews st) - {previewKey doc},
               previewErrors := (previewErrors st)(previewKey doc \<mapsto> error_message e)\<rparr>"
proof -
  from assms(2) have "renderPages b lib doc = (fst (renderPages b lib doc), Inl e)"
    by (metis prod.collapse)
  from generatePreview_failure [OF assms(1) this] show ?thesis
    by (simp add: state_after_def)
qed

lemma calls_made_engine:
  assumes "configurePdfjs b = Inr (Some lib)"
  shows "calls_made b pv doc st = fst (renderPages b lib doc)"
  using assms by (simp add: calls_made_def generatePreview_def Let_def split: prod.splits)

lemma promise_of_engine:
  assumes "configurePdfjs b = Inr (Some lib)"
  shows "promise_of b pv doc st = Fulfilled"
  using assms by (simp add: promise_of_def generatePreview_def Let_def split: prod.splits)

lemma demo_configure: "configurePdfjs demo_browser = Inr (Some demo_pdfjs)"
  by (simp add: configurePdfjs_def demo_browser_def)

lemma demo_engine_messages: "engine_errors_have_messages demo_pdfjs"
  by (simp add: engine_errors_have_messages_def demo_pdfjs_def error_message_def lit_def)

lemmas demo_defs = demo_browser_def demo_pdfjs_def demo_doc_def offline_browser_def
  initial_state_def

lemmas eval_defs = state_after_def calls_made_def promise_of_def generatePreview_def
  beginPreview_def settlePreview_def configurePdfjs_def renderPages_def markPending_def previewKey_def key_of_def
  error_message_def number_to_string_def digits.simps lit_def Let_def

lemma demo_key: "previewKey demo_doc = lit ''a.pdf_1''"
  by (simp add: demo_defs eval_defs)

lemma demo_generatePreview:
  "generatePreview demo_browser pv demo_doc st =
     ([GetDocument (lit ''a.pdf''), GetPage (lit ''a.pdf'') 1,
       RenderPage (lit ''a.pdf'', 1) \<lparr>vscale = 0.5, vwidth = 306, vheight = 396\<rparr>,
       RenderPage (lit ''a.pdf'', 1) \<lparr>vscale = 1.5, vwidth = 918, vheight = 1188\<rparr>],
      Fulfilled,
      st\<lparr>loadingPreviews := markPending pv (lit ''a.pdf_1'') (loadingPreviews st) - {lit ''a.pdf_1''},
         previews := (previews st)(lit ''a.pdf_1'' \<mapsto> lit ''data:image/png;p1;small''),
         largePreviews := (largePreviews st)(lit ''a.pdf_1'' \<mapsto> lit ''data:image/png;p1;large'')\<rparr>)"
  by (simp add: demo_defs generatePreview_def beginPreview_def settlePreview_def
      configurePdfjs_def renderPages_def previewKey_def key_of_def number_to_string_def
      digits.simps lit_def Let_def)

lemma demo_rejects: "rejects_pages_beyond_count demo_pdfjs"
  by (simp add: rejects_pages_beyond_count_def demo_pdfjs_def)

lemma number_to_string_no_underscore: "95 \<notin> set (number_to_string p)"
proof
  assume "95 \<in> set (number_to_string p)"
  then have "95 \<in> set (digits (nat (- p))) \<or> 95 \<in> set (digits (nat p))"
    by (simp add: number_to_string_def split: if_splits)
  then show False using digits_range [of 95] by auto
qed

lemma split_at_last:
  assumes "xs @ a # ys = xs' @ a # ys'" and "a \<notin> set ys" and "a \<notin> set ys'"
  shows "xs = xs' \<and> ys = ys'"
proof -
  have "takeWhile (\<lambda>c. c \<noteq> a) (rev (xs @ a # ys)) = rev ys"
    using assms(2) by (auto simp: takeWhile_tail)
  moreover have "takeWhile (\<lambda>c. c \<noteq> a) (rev (xs' @ a # ys')) = rev ys'"
    using assms(3) by (auto simp: takeWhile_tail)
  ultimately have "rev ys = rev ys'" using assms(1) by simp
  then have "ys = ys'" by simp
  with assms(1) show ?thesis by simp
qed

lemma key_of_inj: "key_of u p = key_of u' p' \<Longrightarrow> u = u' \<and> p = p'"
proof -
  assume "key_of u p = key_of u' p'"
  then have "u @ 95 # number_to_string p = u' @ 95 # number_to_string p'"
    by (simp add: key_of_def)
  from split_at_last [OF this number_to_string_no_underscore number_to_string_no_underscore]
  show ?thesis by (auto dest: number_to_string_inj)
qed

lemma renderPages_same_page:
  "url d = url d' \<Longrightarrow> page d = page d' \<Longrightarrow> renderPages b lib d = renderPages b lib d'"
  unfolding renderPages_def by (erule ssubst, erule ssubst) (rule refl)

lemma renderPages_same_key:
  "previewKey d = previewKey d' \<Longrightarrow> renderPages b lib d = renderPages b lib d'"
  by (auto simp: previewKey_def dest!: key_of_inj intro: renderPages_same_page)

lemma recorded_after_own_call:
  assumes "configurePdfjs b = Inr (Some lib)"
  shows "recorded b lib d (state_after b pv d st)"
proof (cases rule: renderPages_cases [of b lib d])
  case (success cs smallCanvas largeCanvas)
  then have r: "snd (renderPages b lib d) = Inr (smallCanvas, largeCanvas)" by simp
  show ?thesis
    by (simp add: recorded_def r state_after_success [OF assms r])
next
  case (failure cs e)
  then have r: "snd (renderPages b lib d) = Inl e" by simp
  show ?thesis
    by (simp add: recorded_def r state_after_failure [OF assms r])
qed

lemma recorded_after_other_call:
  assumes cfg: "configurePdfjs b = Inr (Some lib)" and rec: "recorded b lib d st"
  shows "recorded b lib d (state_after b pv d' st)"
proof (cases "previewKey d' = previewKey d")
  case True
  then have same: "renderPages b lib d' = renderPages b lib d" by (rule renderPages_same_key)
  from recorded_after_own_call [OF cfg, of d' pv st] show ?thesis
    unfolding recorded_def same True .
next
  case False
  show ?thesis
  proof (cases rule: renderPages_cases [of b lib d'])
    case (success cs smallCanvas largeCanvas)
    then have r: "snd (renderPages b lib d') = Inr (smallCanvas, largeCanvas)" by simp
    from rec False show ?thesis
      by (simp add: recorded_def state_after_success [OF cfg r] split: sum.splits prod.splits)
  next
    case (failure cs e)
    then have r: "snd (renderPages b lib d') = Inl e" by simp
    from rec False show ?thesis
      by (simp add: recorded_def state_after_failure [OF cfg r] split: sum.splits prod.splits)
  qed
qed

lemma submitAll_Cons:
  "snd (submitAll b pv (doc # docs) st) = snd (submitAll b pv docs (state_after b pv doc st))"
  by (simp add: state_after_def split: prod.splits)

lemma submitAll_keeps_recorded:
  assumes "configurePdfjs b = Inr (Some lib)"
  shows "recorded b lib d st \<Longrightarrow> recorded b lib d (snd (submitAll b pv docs st))"
proof (induction docs arbitrary: st)
  case Nil
  then show ?case by simp
next
  case (Cons doc docs)
  from recorded_after_other_call [OF assms Cons.prems]
  have "recorded b lib d (state_after b pv doc st)" .
  from Cons.IH [OF this] show ?case by (simp only: submitAll_Cons)
qed

lemma submitAll_records_all:
  assumes "configurePdfjs b = Inr (Some lib)"
  shows "d \<in> set docs \<Longrightarrow> recorded b lib d (snd (submitAll b pv docs st))"
proof (induction docs arbitrary: st)
  case Nil
  then show ?case by simp
next
  case (Cons doc docs)
  show ?case
  proof (cases "d = doc")
    case True
    from submitAll_keeps_recorded [OF assms recorded_after_own_call [OF assms]]
    show ?thesis by (simp only: submitAll_Cons True)
  next
    case False
    with Cons.prems have "d \<in> set docs" by simp
    from Cons.IH [OF this] show ?thesis by (simp only: submitAll_Cons)
  qed
qed

section \<open>Lemmas on the stores\<close>

lemma state_after_engine:
  assumes "configurePdfjs b = Inr (Some lib)"
  shows "state_after b pv doc st =
           settlePreview b (previewKey doc) (snd (renderPages b lib doc))
             (beginPreview pv (previewKey doc) st)"
  using assms by (simp add: state_after_def generatePreview_def Let_def split: prod.splits)

lemma state_after_cases:
  obtains (engine) lib where "configurePdfjs b = Inr (Some lib)"
  | (idle) "state_after b pv doc st = st"
proof (cases "configurePdfjs b")
  case (Inl e)
  then have "state_after b pv doc st = st"
    by (simp add: state_after_def generatePreview_import_failed)
  then show ?thesis by (rule idle)
next
  case (Inr lib_opt)
  show ?thesis
  proof (cases lib_opt)
    case None
    with Inr have "state_after b pv doc st = st"
      by (simp add: state_after_def generatePreview_no_window)
    then show ?thesis by (rule idle)
  next
    case (Some lib)
    with Inr show ?thesis by (simp add: engine)
  qed
qed

lemma perform_begin_cases:
  "perform b be (BeginGeneratePreview pv doc) st = st \<or>
   perform b be (BeginGeneratePreview pv doc) st = beginPreview pv (previewKey doc) st"
  by (simp split: sum.splits option.splits)

lemma perform_settle_cases:
  "perform b be (SettleGeneratePreview doc) st = st \<or>
   (\<exists>r. perform b be (SettleGeneratePreview doc) st = settlePreview b (previewKey doc) r st)"
  by (auto split: sum.splits option.splits)

lemma paired_initial: "paired initial_state"
  by (simp add: paired_def initial_state_def)

lemma paired_beginPreview: "paired st \<Longrightarrow> paired (beginPreview pv k st)"
  by (simp add: paired_def beginPreview_def)

lemma paired_settlePreview:
  assumes "data_urls_nonempty b" and "paired st"
  shows "paired (settlePreview b k r st)"
  using assms
  by (cases r) (auto simp: paired_def data_urls_nonempty_def settlePreview_def Let_def)

lemma paired_state_after:
  assumes "data_urls_nonempty b" and "paired st"
  shows "paired (state_after b pv doc st)"
proof (cases rule: state_after_cases [where b = b and pv = pv and doc = doc and st = st])
  case (engine lib)
  from paired_settlePreview [OF assms(1) paired_beginPreview [OF assms(2)]]
  show ?thesis by (simp only: state_after_engine [OF engine])
next
  case idle
  with assms(2) show ?thesis by simp
qed

lemma paired_submitAll:
  assumes "data_urls_nonempty b"
  shows "paired st \<Longrightarrow> paired (snd (submitAll b pv docs st))"
proof (induction docs arbitrary: st)
  case Nil
  then show ?case by simp
next
  case (Cons doc docs)
  from Cons.IH [OF paired_state_after [OF assms Cons.prems]]
  show ?case by (simp only: submitAll_Cons)
qed

lemma handleSubmit_stores:
  "previews (snd (handleSubmit be st)) = previews st \<and>
   largePreviews (snd (handleSubmit be st)) = largePreviews st \<and>
   loadingPreviews (snd (handleSubmit be st)) = loadingPreviews st \<and>
   previewErrors (snd (handleSubmit be st)) = previewErrors st"
  by (simp add: handleSubmit_def Let_def)

lemma handlePreviewClick_stores:
  "previews (handlePreviewClick doc st) = previews st \<and>
   largePreviews (handlePreviewClick doc st) = largePreviews st \<and>
   loadingPreviews (handlePreviewClick doc st) = loadingPreviews st \<and>
   previewErrors (handlePreviewClick doc st) = previewErrors st"
  by (simp add: handlePreviewClick_def Let_def)

lemma paired_perform:
  assumes "data_urls_nonempty b" and "paired st"
  shows "paired (perform b be op st)"
proof (cases op)
  case Submit
  with assms(2) show ?thesis by (simp add: paired_def handleSubmit_stores)
next
  case (ChangeInput s)
  with assms(2) show ?thesis by (simp add: paired_def)
next
  case RunPreviewEffect
  with paired_submitAll [OF assms] show ?thesis by (simp add: previewEffect_def)
next
  case (CallGeneratePreview pv doc)
  with paired_state_after [OF assms] show ?thesis by simp
next
  case (BeginGeneratePreview pv doc)
  from perform_begin_cases [of b be pv doc st] assms(2) paired_beginPreview [OF assms(2)]
  show ?thesis unfolding BeginGeneratePreview by auto
next
  case (SettleGeneratePreview doc)
  from perform_settle_cases [of b be doc st] show ?thesis
  proof
    assume "perform b be (SettleGeneratePreview doc) st = st"
    with assms(2) show ?thesis unfolding SettleGeneratePreview by simp
  next
    assume "\<exists>r. perform b be (SettleGeneratePreview doc) st = settlePreview b (previewKey doc) r st"
    then obtain r where
      "perform b be (SettleGeneratePreview doc) st = settlePreview b (previewKey doc) r st" ..
    with paired_settlePreview [OF assms, of "previewKey doc" r]
    show ?thesis unfolding SettleGeneratePreview by simp
  qed
next
  case (PreviewClick doc)
  with assms(2) show ?thesis by (simp add: paired_def handlePreviewClick_stores)
next
  case (DocumentClick doc)
  with assms(2) show ?thesis by simp
next
  case CloseModal
  with assms(2) show ?thesis by (simp add: paired_def)
qed

lemma demo_data_urls: "data_urls_nonempty demo_browser"
  by (auto simp: data_urls_nonempty_def demo_browser_def lit_def split: option.splits)

lemma ready_state_eq:
  "ready_state = initial_state\<lparr>previews := [lit ''a.pdf_1'' \<mapsto> lit ''data:image/png;p1;small''],
      largePreviews := [lit ''a.pdf_1'' \<mapsto> lit ''data:image/png;p1;large'']\<rparr>"
  by (simp add: ready_state_def state_after_def demo_generatePreview markPending_def initial_state_def)

lemma failed_state_eq:
  "failed_state = initial_state\<lparr>previewErrors := [lit ''a.pdf_1'' \<mapsto> lit ''Failed to fetch'']\<rparr>"
  by (simp add: failed_state_def demo_defs eval_defs)

lemma errors_kept_beginPreview:
  "previewErrors (beginPreview pv k' st) = previewErrors st"
  by (simp add: beginPreview_def)

lemma errors_kept_settlePreview:
  assumes "previewErrors st k = Some m"
  shows "k \<in> dom (previewErrors (settlePreview b k' r st))"
  using assms by (cases r) (auto simp: settlePreview_def Let_def)

lemma errors_kept_state_after:
  assumes "previewErrors st k = Some m"
  shows "k \<in> dom (previewErrors (state_after b pv doc st))"
proof (cases rule: state_after_cases [where b = b and pv = pv and doc = doc and st = st])
  case (engine lib)
  from assms have "previewErrors (beginPreview pv (previewKey doc) st) k = Some m"
    by (simp add: errors_kept_beginPreview)
  from errors_kept_settlePreview [OF this] show ?thesis
    by (simp only: state_after_engine [OF engine])
next
  case idle
  with assms show ?thesis by auto
qed

lemma errors_kept_submitAll:
  "k \<in> dom (previewErrors st) \<Longrightarrow> k \<in> dom (previewErrors (snd (submitAll b pv docs st)))"
proof (induction docs arbitrary: st)
  case Nil
  then show ?case by simp
next
  case (Cons doc docs)
  from Cons.prems obtain m where "previewErrors st k = Some m" by auto
  from Cons.IH [OF errors_kept_state_after [OF this]]
  show ?case by (simp only: submitAll_Cons)
qed

lemma errors_kept_perform:
  assumes "previewErrors st k = Some m"
  shows "k \<in> dom (previewErrors (perform b be op st))"
proof (cases op)
  case Submit
  with assms show ?thesis by (auto simp: handleSubmit_stores)
next
  case (ChangeInput s)
  with assms show ?thesis by auto
next
  case RunPreviewEffect
  from assms have "k \<in> dom (previewErrors st)" by auto
  from errors_kept_submitAll [OF this] RunPreviewEffect show ?thesis
    by (simp add: previewEffect_def)
next
  case (CallGeneratePreview pv doc)
  with errors_kept_state_after [OF assms] show ?thesis by simp
next
  case (BeginGeneratePreview pv doc)
  from perform_begin_cases [of b be pv doc st] assms
  show ?thesis unfolding BeginGeneratePreview by (auto simp: errors_kept_beginPreview)
next
  case (SettleGeneratePreview doc)
  from perform_settle_cases [of b be doc st] show ?thesis
  proof
    assume "perform b be (SettleGeneratePreview doc) st = st"
    with assms show ?thesis unfolding SettleGeneratePreview by auto
  next
    assume "\<exists>r. perform b be (SettleGeneratePreview doc) st = settlePreview b (previewKey doc) r st"
    then obtain r where
      "perform b be (SettleGeneratePreview doc) st = settlePreview b (previewKey doc) r st" ..
    with errors_kept_settlePreview [OF assms, of b "previewKey doc" r]
    show ?thesis unfolding SettleGeneratePreview by simp
  qed
next
  case (PreviewClick doc)
  with assms show ?thesis by (auto simp: handlePreviewClick_stores)
next
  case (DocumentClick doc)
  with assms show ?thesis by auto
next
  case CloseModal
  with assms show ?thesis by auto
qed

lemma renderPages_opens_first:
  "\<exists>rest. fst (renderPages b lib doc) = GetDocument (url doc) # rest"
  by (simp add: renderPages_def Let_def split: sum.splits option.splits)

lemma error_message_empty_iff: "error_message e = [] \<longleftrightarrow> e = Error []"
  by (cases e) (simp_all add: error_message_def lit_def)

lemma submitAll_calls:
  assumes "configurePdfjs b = Inr (Some lib)"
  shows "fst (submitAll b pv docs st) = concat (map (\<lambda>d. fst (renderPages b lib d)) docs)"
proof (induction docs arbitrary: st)
  case Nil
  show ?case by simp
next
  case (Cons doc docs)
  have "fst (generatePreview b pv doc st) = fst (renderPages b lib doc)"
    using calls_made_engine [OF assms, of pv doc st] by (simp add: calls_made_def)
  with Cons.IH show ?case
    by (simp split: prod.splits) (metis fst_conv snd_conv)
qed

lemma submitAll_opens_each:
  assumes "configurePdfjs b = Inr (Some lib)" and "d \<in> set docs"
  shows "GetDocument (url d) \<in> set (fst (submitAll b pv docs st))"
proof -
  from renderPages_opens_first [of b lib d]
  have "GetDocument (url d) \<in> set (fst (renderPages b lib d))" by auto
  with assms(2) show ?thesis
    by (auto simp: submitAll_calls [OF assms(1)])
qed

lemma submitAll_import_failed:
  assumes "configurePdfjs b = Inl e"
  shows "submitAll b pv docs st = ([], st)"
  by (induction docs arbitrary: st) (simp_all add: generatePreview_import_failed [OF assms])

lemma submitAll_no_window:
  assumes "configurePdfjs b = Inr None"
  shows "submitAll b pv docs st = ([], st)"
  by (induction docs arbitrary: st) (simp_all add: generatePreview_no_window [OF assms])

lemma offline_configure:
  "configurePdfjs offline_browser =
     Inr (Some (demo_pdfjs\<lparr>getDocument := (\<lambda>u. Inl (Error (lit ''Failed to fetch'')))\<rparr>))"
  by (simp add: configurePdfjs_def offline_browser_def demo_browser_def)

section \<open>Key derivation ignores decorations\<close>

text \<open>
  Claim C3. Two citations whose locators are the same undecorated base followed by a
  decoration (nothing, a fragment or a query) get the same preview key exactly when
  their page numbers are equal; the citations \<open>https://x/doc.pdf?v=2\<close>, page 3, and
  \<open>https://x/doc.pdf#page=1\<close>, page 3, get the same key.
\<close>

theorem deriveKey_decorations:
  assumes "undecorated base" and "decoration d1" and "decoration d2"
    and "c_url x = base @ d1" and "c_url y = base @ d2"
  shows "(deriveKey x = deriveKey y \<longleftrightarrow> c_page x = c_page y) \<and>
         deriveKey \<lparr>c_title = t1, c_url = lit ''https://x/doc.pdf?v=2'', c_page = 3\<rparr> =
         deriveKey \<lparr>c_title = t2, c_url = lit ''https://x/doc.pdf#page=1'', c_page = 3\<rparr>"
proof
  have "cleanUrl (c_url x) = base" "cleanUrl (c_url y) = base"
    using assms by (simp_all add: cleanUrl_decorated)
  then show "deriveKey x = deriveKey y \<longleftrightarrow> c_page x = c_page y"
    by (simp add: deriveKey_def previewKey_def toDocument_def key_of_same_url)
next
  show "deriveKey \<lparr>c_title = t1, c_url = lit ''https://x/doc.pdf?v=2'', c_page = 3\<rparr> =
        deriveKey \<lparr>c_title = t2, c_url = lit ''https://x/doc.pdf#page=1'', c_page = 3\<rparr>"
    by (simp add: deriveKey_def previewKey_def toDocument_def cleanUrl_def key_of_def lit_def)
qed

theorem deriveKey_decorations_witness:
  "undecorated (lit ''https://x/doc.pdf'') \<and> decoration (lit ''?v=2'') \<and>
   decoration (lit ''#page=1'') \<and>
   deriveKey \<lparr>c_title = lit ''A'', c_url = lit ''https://x/doc.pdf'' @ lit ''?v=2'',
              c_page = 3\<rparr> \<noteq>
   deriveKey \<lparr>c_title = lit ''A'', c_url = lit ''https://x/doc.pdf'' @ lit ''#page=1'',
              c_page = 4\<rparr>"
  using deriveKey_decorations [of "lit ''https://x/doc.pdf''" "lit ''?v=2''" "lit ''#page=1''"
     "\<lparr>c_title = lit ''A'', c_url = lit ''https://x/doc.pdf'' @ lit ''?v=2'', c_page = 3\<rparr>"
     "\<lparr>c_title = lit ''A'', c_url = lit ''https://x/doc.pdf'' @ lit ''#page=1'', c_page = 4\<rparr>"]
  by (simp add: undecorated_def decoration_def lit_def)

section \<open>Submitting a blank question\<close>

text \<open>
  Claim C10. When the input is empty or holds only white space, \<open>handleSubmit\<close> changes
  nothing of the state (message list, loading flag, the four preview stores, the input
  and the modal) and sends no request: all it does is \<open>preventDefault\<close>.
\<close>

theorem handleSubmit_blank_is_noop:
  assumes "list_all is_whitespace (input st)"
  shows "handleSubmit be st = ([PreventDefault], st)"
  using assms by (simp add: handleSubmit_def trim_blank)

theorem handleSubmit_blank_is_noop_witness:
  "list_all is_whitespace [32, 9, 160, 12288] \<and>
   handleSubmit demo_backend (initial_state\<lparr>input := [32, 9, 160, 12288]\<rparr>) =
     ([PreventDefault :: (js_string, js_string \<times> int) event],
      initial_state\<lparr>input := [32, 9, 160, 12288]\<rparr>)"
proof -
  have h: "list_all is_whitespace (input (initial_state\<lparr>input := [32, 9, 160, 12288]\<rparr>))"
    by (simp add: is_whitespace_def)
  from handleSubmit_blank_is_noop [OF h, of demo_backend] h show ?thesis by simp
qed

section \<open>A render attempt is all or nothing\<close>

text \<open>
  Claim C5, as stated, fails: when the engine raises an error whose message is empty,
  neither cache is written and the error map receives the empty message, for which the
  thumbnail view shows nothing.
\<close>

theorem empty_message_is_stored:
  "previews (state_after mute_browser Map.empty demo_doc initial_state) = Map.empty \<and>
   largePreviews (state_after mute_browser Map.empty demo_doc initial_state) = Map.empty \<and>
   previewErrors (state_after mute_browser Map.empty demo_doc initial_state) (previewKey demo_doc)
     = Some [] \<and>
   thumbnailView (state_after mute_browser Map.empty demo_doc initial_state) demo_doc = Nothing"
  by (simp add: mute_browser_def demo_defs eval_defs thumbnailView_def)

text \<open>
  Claim C5, amended. When the engine is available, a call of \<open>generatePreview\<close> either
  writes an entry for the key into both the small and the large bitmap cache and leaves
  the error map alone, or writes neither cache and puts the message of the failure into
  the error map: the message of the thrown error as it is, or \<open>Unknown error\<close> for a
  thrown value that is not an error. That message is empty only when the thrown error
  has an empty message, hence never when the errors the engine raises carry a message.
\<close>

theorem generatePreview_all_or_nothing:
  assumes "configurePdfjs b = Inr (Some lib)"
  shows "(\<exists>smallCanvas largeCanvas.
            snd (renderPages b lib doc) = Inr (smallCanvas, largeCanvas) \<and>
            previews (state_after b pv doc st) = (previews st)(previewKey doc \<mapsto> toDataURL b smallCanvas) \<and>
            largePreviews (state_after b pv doc st) = (largePreviews st)(previewKey doc \<mapsto> toDataURL b largeCanvas) \<and>
            previewErrors (state_after b pv doc st) = previewErrors st)
         \<or>
         (\<exists>e. snd (renderPages b lib doc) = Inl e \<and>
            previews (state_after b pv doc st) = previews st \<and>
            largePreviews (state_after b pv doc st) = largePreviews st \<and>
            previewErrors (state_after b pv doc st) = (previewErrors st)(previewKey doc \<mapsto> error_message e) \<and>
            (error_message e = [] \<longleftrightarrow> e = Error []) \<and>
            (engine_errors_have_messages lib \<longrightarrow> error_message e \<noteq> []))"
proof (cases rule: renderPages_cases [of b lib doc])
  case (success cs smallCanvas largeCanvas)
  then have "snd (renderPages b lib doc) = Inr (smallCanvas, largeCanvas)" by simp
  from state_after_success [OF assms this, of pv st] this show ?thesis by simp
next
  case (failure cs e)
  then have r: "snd (renderPages b lib doc) = Inl e" by simp
  from state_after_failure [OF assms r, of pv st] r renderPages_failure_message [OF _ failure]
  show ?thesis by (simp add: error_message_empty_iff)
qed

theorem generatePreview_all_or_nothing_witness:
  "configurePdfjs demo_browser = Inr (Some demo_pdfjs) \<and>
   engine_errors_have_messages demo_pdfjs \<and>
   previews (state_after demo_browser Map.empty demo_doc initial_state) (previewKey demo_doc)
     = Some (lit ''data:image/png;p1;small'') \<and>
   largePreviews (state_after demo_browser Map.empty demo_doc initial_state) (previewKey demo_doc)
     = Some (lit ''data:image/png;p1;large'') \<and>
   previewErrors (state_after demo_browser Map.empty demo_doc initial_state) = Map.empty \<and>
   previews (state_after demo_browser Map.empty (demo_doc\<lparr>page := 9999\<rparr>) initial_state) = Map.empty \<and>
   largePreviews (state_after demo_browser Map.empty (demo_doc\<lparr>page := 9999\<rparr>) initial_state) = Map.empty \<and>
   previewErrors (state_after demo_browser Map.empty (demo_doc\<lparr>page := 9999\<rparr>) initial_state)
     (previewKey (demo_doc\<lparr>page := 9999\<rparr>)) = Some (lit ''Invalid page request.'')"
  using demo_engine_messages
    generatePreview_all_or_nothing [OF demo_configure, of demo_doc Map.empty initial_state]
    generatePreview_all_or_nothing [OF demo_configure, of "demo_doc\<lparr>page := 9999\<rparr>" Map.empty initial_state]
  by (simp add: demo_defs eval_defs)

section \<open>The renderer: two bitmaps, at scale 0.5 and 1.5\<close>

text \<open>
  Claim C8. A successful run of the render pipeline opens the document, fetches the
  requested page and renders it twice, first at scale 0.5 and then at scale 1.5, and its
  two canvases hold that page at those scales. It fails when the page number is beyond
  the page count (the engine rejects such a page) and when the small or the large
  canvas yields no drawing context.
\<close>

theorem renderPages_two_scales:
  "(renderPages b lib doc = (calls, Inr (smallCanvas, largeCanvas)) \<longrightarrow>
      (\<exists>pdf pg. getDocument lib (url doc) = Inr pdf \<and> getPage lib pdf (page doc) = Inr pg \<and>
         calls = [GetDocument (url doc), GetPage pdf (page doc),
                  RenderPage pg (getViewport lib pg 0.5), RenderPage pg (getViewport lib pg 1.5)] \<and>
         painted smallCanvas = Some (pg, getViewport lib pg 0.5) \<and>
         painted largeCanvas = Some (pg, getViewport lib pg 1.5))) \<and>
   (rejects_pages_beyond_count lib \<and> getDocument lib (url doc) = Inr pdf \<and>
      numPages lib pdf < page doc \<longrightarrow> (\<exists>e. snd (renderPages b lib doc) = Inl e)) \<and>
   (getDocument lib (url doc) = Inr pdf \<and> getPage lib pdf (page doc) = Inr pg \<and>
      \<not> getContext b \<lparr>width = vwidth (getViewport lib pg 0.5),
                       height = vheight (getViewport lib pg 0.5), painted = None\<rparr> \<longrightarrow>
      snd (renderPages b lib doc) = Inl (Error (lit ''Failed to get small canvas context''))) \<and>
   (getDocument lib (url doc) = Inr pdf \<and> getPage lib pdf (page doc) = Inr pg \<and>
      getContext b \<lparr>width = vwidth (getViewport lib pg 0.5),
                     height = vheight (getViewport lib pg 0.5), painted = None\<rparr> \<and>
      render lib pg (getViewport lib pg 0.5) = None \<and>
      \<not> getContext b \<lparr>width = vwidth (getViewport lib pg 1.5),
                       height = vheight (getViewport lib pg 1.5), painted = None\<rparr> \<longrightarrow>
      snd (renderPages b lib doc) = Inl (Error (lit ''Failed to get large canvas context'')))"
proof (intro conjI impI)
  assume "renderPages b lib doc = (calls, Inr (smallCanvas, largeCanvas))"
  then show "\<exists>pdf pg. getDocument lib (url doc) = Inr pdf \<and> getPage lib pdf (page doc) = Inr pg \<and>
         calls = [GetDocument (url doc), GetPage pdf (page doc),
                  RenderPage pg (getViewport lib pg 0.5), RenderPage pg (getViewport lib pg 1.5)] \<and>
         painted smallCanvas = Some (pg, getViewport lib pg 0.5) \<and>
         painted largeCanvas = Some (pg, getViewport lib pg 1.5)"
    by (auto simp: renderPages_def Let_def split: sum.splits option.splits if_splits)
next
  assume a: "rejects_pages_beyond_count lib \<and> getDocument lib (url doc) = Inr pdf \<and>
      numPages lib pdf < page doc"
  then obtain e where "getPage lib pdf (page doc) = Inl e"
    by (auto simp: rejects_pages_beyond_count_def)
  with a show "\<exists>e. snd (renderPages b lib doc) = Inl e"
    by (simp add: renderPages_def)
next
  assume "getDocument lib (url doc) = Inr pdf \<and> getPage lib pdf (page doc) = Inr pg \<and>
      \<not> getContext b \<lparr>width = vwidth (getViewport lib pg 0.5),
                       height = vheight (getViewport lib pg 0.5), painted = None\<rparr>"
  then show "snd (renderPages b lib doc) = Inl (Error (lit ''Failed to get small canvas context''))"
    by (simp add: renderPages_def Let_def)
next
  assume "getDocument lib (url doc) = Inr pdf \<and> getPage lib pdf (page doc) = Inr pg \<and>
      getContext b \<lparr>width = vwidth (getViewport lib pg 0.5),
                     height = vheight (getViewport lib pg 0.5), painted = None\<rparr> \<and>
      render lib pg (getViewport lib pg 0.5) = None \<and>
      \<not> getContext b \<lparr>width = vwidth (getViewport lib pg 1.5),
                       height = vheight (getViewport lib pg 1.5), painted = None\<rparr>"
  then show "snd (renderPages b lib doc) = Inl (Error (lit ''Failed to get large canvas context''))"
    by (simp add: renderPages_def Let_def)
qed

theorem renderPages_two_scales_witness:
  "renderPages demo_browser demo_pdfjs demo_doc =
     ([GetDocument (lit ''a.pdf''), GetPage (lit ''a.pdf'') 1,
       RenderPage (lit ''a.pdf'', 1) \<lparr>vscale = 0.5, vwidth = 306, vheight = 396\<rparr>,
       RenderPage (lit ''a.pdf'', 1) \<lparr>vscale = 1.5, vwidth = 918, vheight = 1188\<rparr>],
      Inr (\<lparr>width = 306, height = 396,
             painted = Some ((lit ''a.pdf'', 1), \<lparr>vscale = 0.5, vwidth = 306, vheight = 396\<rparr>)\<rparr>,
           \<lparr>width = 918, height = 1188,
             painted = Some ((lit ''a.pdf'', 1), \<lparr>vscale = 1.5, vwidth = 918, vheight = 1188\<rparr>)\<rparr>)) \<and>
   rejects_pages_beyond_count demo_pdfjs \<and>
   numPages demo_pdfjs (lit ''a.pdf'') < page (demo_doc\<lparr>page := 9999\<rparr>) \<and>
   snd (renderPages demo_browser demo_pdfjs (demo_doc\<lparr>page := 9999\<rparr>)) =
     Inl (Error (lit ''Invalid page request.'')) \<and>
   snd (renderPages (demo_browser\<lparr>getContext := \<lambda>c. False\<rparr>) demo_pdfjs demo_doc) =
     Inl (Error (lit ''Failed to get small canvas context'')) \<and>
   snd (renderPages (demo_browser\<lparr>getContext := \<lambda>c. width c < 500\<rparr>) demo_pdfjs demo_doc) =
     Inl (Error (lit ''Failed to get large canvas context''))"
  using demo_rejects
    renderPages_two_scales [of demo_browser demo_pdfjs demo_doc
      "fst (renderPages demo_browser demo_pdfjs demo_doc)"
      "fst (projr (snd (renderPages demo_browser demo_pdfjs demo_doc)))"
      "snd (projr (snd (renderPages demo_browser demo_pdfjs demo_doc)))"
      "lit ''a.pdf''" "(lit ''a.pdf'', 1)"]
    renderPages_two_scales [of demo_browser demo_pdfjs "demo_doc\<lparr>page := 9999\<rparr>" _ _ _
      "lit ''a.pdf''" "(lit ''a.pdf'', 1)"]
    renderPages_two_scales [of "demo_browser\<lparr>getContext := \<lambda>c. False\<rparr>" demo_pdfjs demo_doc _ _ _
      "lit ''a.pdf''" "(lit ''a.pdf'', 1)"]
    renderPages_two_scales [of "demo_browser\<lparr>getContext := \<lambda>c. width c < 500\<rparr>" demo_pdfjs demo_doc _ _ _
      "lit ''a.pdf''" "(lit ''a.pdf'', 1)"]
  by (simp add: demo_defs renderPages_def Let_def)

section \<open>Render failures stay local\<close>

text \<open>
  Claim C4, as stated, fails: when the engine module cannot be loaded, the promise of
  \<open>generatePreview\<close> is rejected with the error of the import and nothing is recorded
  for the key.
\<close>

theorem import_failure_rejects_promise:
  "promise_of importless_browser Map.empty demo_doc initial_state
     = Rejected (Error (lit ''Loading chunk failed'')) \<and>
   previewErrors (state_after importless_browser Map.empty demo_doc initial_state)
     (previewKey demo_doc) = None"
  by (simp add: importless_browser_def demo_defs eval_defs)

text \<open>
  Claim C4, amended. When the engine module loads, the promise of \<open>generatePreview\<close> is
  fulfilled whatever the render pipeline does: a failure to open the document, to fetch
  the page, to get a canvas context or to rasterize is stored as the error message of
  the key, and after the effect that submits every document of every message each
  document has its outcome on record, the good ones their bitmaps and the bad ones
  their message. Without a window the call does nothing. Only a failed import of the
  engine module, which is awaited before the \<open>try\<close>, rejects the promise, with no call
  to the engine and no change of the state; the effect drops the promises, so it ends
  all the same.
\<close>

theorem generatePreview_recovers_locally:
  "(importPdfjs b = Inr lib \<longrightarrow>
      promise_of b pv doc st = Fulfilled \<and>
      (hasWindow b \<and> pipeline_fails b lib doc e \<longrightarrow>
         previewErrors (state_after b pv doc st) (previewKey doc) = Some (error_message e)) \<and>
      (hasWindow b \<and> d \<in> set (all_documents (messages st)) \<longrightarrow>
         recorded b lib d (snd (previewEffect b st)))) \<and>
   (\<not> hasWindow b \<longrightarrow>
      promise_of b pv doc st = Fulfilled \<and> calls_made b pv doc st = [] \<and>
      state_after b pv doc st = st \<and> previewEffect b st = ([], st)) \<and>
   (hasWindow b \<and> importPdfjs b = Inl x \<longrightarrow>
      promise_of b pv doc st = Rejected x \<and> calls_made b pv doc st = [] \<and>
      state_after b pv doc st = st \<and> previewEffect b st = ([], st))"
proof (intro conjI impI)
  assume imp: "importPdfjs b = Inr lib"
  show "promise_of b pv doc st = Fulfilled"
  proof (cases "hasWindow b")
    case True
    with imp have "configurePdfjs b = Inr (Some lib)" by (simp add: configurePdfjs_def)
    then show ?thesis by (rule promise_of_engine)
  next
    case False
    then have "configurePdfjs b = Inr None" by (simp add: configurePdfjs_def)
    then show ?thesis by (simp add: promise_of_def generatePreview_no_window)
  qed
  {
    assume "hasWindow b \<and> pipeline_fails b lib doc e"
    with imp have cfg: "configurePdfjs b = Inr (Some lib)"
      and r: "snd (renderPages b lib doc) = Inl e"
      by (simp_all add: configurePdfjs_def renderPages_fails_iff)
    show "previewErrors (state_after b pv doc st) (previewKey doc) = Some (error_message e)"
      by (simp add: state_after_failure [OF cfg r])
  }
  {
    assume a: "hasWindow b \<and> d \<in> set (all_documents (messages st))"
    with imp have cfg: "configurePdfjs b = Inr (Some lib)" by (simp add: configurePdfjs_def)
    from a show "recorded b lib d (snd (previewEffect b st))"
      unfolding previewEffect_def by (simp add: submitAll_records_all [OF cfg])
  }
next
  assume "\<not> hasWindow b"
  then have cfg: "configurePdfjs b = Inr None" by (simp add: configurePdfjs_def)
  show "promise_of b pv doc st = Fulfilled"
    by (simp add: promise_of_def generatePreview_no_window [OF cfg])
  show "calls_made b pv doc st = []"
    by (simp add: calls_made_def generatePreview_no_window [OF cfg])
  show "state_after b pv doc st = st"
    by (simp add: state_after_def generatePreview_no_window [OF cfg])
  show "previewEffect b st = ([], st)"
    by (simp add: previewEffect_def submitAll_no_window [OF cfg])
next
  assume "hasWindow b \<and> importPdfjs b = Inl x"
  then have cfg: "configurePdfjs b = Inl x" by (simp add: configurePdfjs_def)
  show "promise_of b pv doc st = Rejected x"
    by (simp add: promise_of_def generatePreview_import_failed [OF cfg])
  show "calls_made b pv doc st = []"
    by (simp add: calls_made_def generatePreview_import_failed [OF cfg])
  show "state_after b pv doc st = st"
    by (simp add: state_after_def generatePreview_import_failed [OF cfg])
  show "previewEffect b st = ([], st)"
    by (simp add: previewEffect_def submitAll_import_failed [OF cfg])
qed

theorem generatePreview_recovers_locally_witness:
  "importPdfjs demo_browser = Inr demo_pdfjs \<and> hasWindow demo_browser \<and>
   pipeline_fails demo_browser demo_pdfjs bad_doc (Error (lit ''Invalid page request.'')) \<and>
   demo_doc \<in> set (all_documents (messages cited_state)) \<and>
   promise_of demo_browser Map.empty bad_doc initial_state = Fulfilled \<and>
   previewErrors (state_after demo_browser Map.empty bad_doc initial_state) (previewKey bad_doc)
     = Some (lit ''Invalid page request.'') \<and>
   previews (snd (previewEffect demo_browser cited_state)) (previewKey demo_doc)
     = Some (lit ''data:image/png;p1;small'') \<and>
   largePreviews (snd (previewEffect demo_browser cited_state)) (previewKey demo_doc)
     = Some (lit ''data:image/png;p1;large'') \<and>
   previewErrors (snd (previewEffect demo_browser cited_state)) (previewKey bad_doc)
     = Some (lit ''Invalid page request.'') \<and>
   \<not> hasWindow (demo_browser\<lparr>hasWindow := False\<rparr>) \<and>
   previewEffect (demo_browser\<lparr>hasWindow := False\<rparr>) cited_state = ([], cited_state) \<and>
   hasWindow importless_browser \<and>
   importPdfjs importless_browser = Inl (Error (lit ''Loading chunk failed'')) \<and>
   promise_of importless_browser Map.empty demo_doc cited_state
     = Rejected (Error (lit ''Loading chunk failed'')) \<and>
   previewEffect importless_browser cited_state = ([], cited_state)"
proof -
  have a: "importPdfjs demo_browser = Inr demo_pdfjs \<and> hasWindow demo_browser \<and>
   pipeline_fails demo_browser demo_pdfjs bad_doc (Error (lit ''Invalid page request.'')) \<and>
   demo_doc \<in> set (all_documents (messages cited_state)) \<and>
   promise_of demo_browser Map.empty bad_doc initial_state = Fulfilled \<and>
   previewErrors (state_after demo_browser Map.empty bad_doc initial_state) (previewKey bad_doc)
     = Some (lit ''Invalid page request.'') \<and>
   previews (snd (previewEffect demo_browser cited_state)) (previewKey demo_doc)
     = Some (lit ''data:image/png;p1;small'') \<and>
   largePreviews (snd (previewEffect demo_browser cited_state)) (previewKey demo_doc)
     = Some (lit ''data:image/png;p1;large'') \<and>
   previewErrors (snd (previewEffect demo_browser cited_state)) (previewKey bad_doc)
     = Some (lit ''Invalid page request.'')"
    using
      generatePreview_recovers_locally [of demo_browser demo_pdfjs Map.empty bad_doc initial_state
        "Error (lit ''Invalid page request.'')" demo_doc]
      generatePreview_recovers_locally [of demo_browser demo_pdfjs Map.empty bad_doc cited_state
        "Error (lit ''Invalid page request.'')" demo_doc]
      generatePreview_recovers_locally [of demo_browser demo_pdfjs Map.empty bad_doc cited_state
        "Error (lit ''Invalid page request.'')" bad_doc]
    by (simp add: demo_defs eval_defs bad_doc_def cited_state_def all_documents_def
        previewEffect_def recorded_def pipeline_fails_def)
  have w: "\<not> hasWindow (demo_browser\<lparr>hasWindow := False\<rparr>)" by simp
  have i: "hasWindow importless_browser \<and>
      importPdfjs importless_browser = Inl (Error (lit ''Loading chunk failed''))"
    by (simp add: importless_browser_def demo_browser_def)
  from generatePreview_recovers_locally [of "demo_browser\<lparr>hasWindow := False\<rparr>" _ Map.empty
      demo_doc cited_state _ _ _] w
  have b: "previewEffect (demo_browser\<lparr>hasWindow := False\<rparr>) cited_state = ([], cited_state)"
    by blast
  from generatePreview_recovers_locally [of importless_browser _ Map.empty demo_doc cited_state
      _ _ "Error (lit ''Loading chunk failed'')"] i
  have c: "promise_of importless_browser Map.empty demo_doc cited_state
       = Rejected (Error (lit ''Loading chunk failed'')) \<and>
     previewEffect importless_browser cited_state = ([], cited_state)"
    by blast
  from a b c w i show ?thesis by blast
qed

section \<open>Opening the modal\<close>

text \<open>
  Claim C6. In a state whose two bitmap caches hold usable entries for the same keys
  (as does every state the operations reach from the initial one when \<open>toDataURL\<close>
  never yields the empty string: \<open>paired_initial\<close>, \<open>paired_perform\<close>),
  \<open>handlePreviewClick\<close> opens the modal exactly when the key of the citation is Ready,
  and then with the large bitmap cached for that key; otherwise (Idle, Pending, or
  Failed without bitmaps) it leaves the state, and so the selected preview, unchanged.
\<close>

theorem handlePreviewClick_iff_ready:
  assumes "paired st"
  shows "(ready st (key_of (cleanUrl (url doc)) (page doc)) \<longrightarrow>
            handlePreviewClick doc st =
              st\<lparr>selectedPreview := Some (doc\<lparr>url := cleanUrl (url doc),
                     largePreviewUrl := largePreviews st (key_of (cleanUrl (url doc)) (page doc))\<rparr>)\<rparr>) \<and>
         (\<not> ready st (key_of (cleanUrl (url doc)) (page doc)) \<longrightarrow>
            handlePreviewClick doc st = st)"
  using assms by (auto simp: handlePreviewClick_def ready_def paired_def Let_def)

theorem handlePreviewClick_iff_ready_witness:
  "paired ready_state \<and> paired pending_state \<and>
   ready ready_state (key_of (cleanUrl (url demo_doc)) (page demo_doc)) \<and>
   selectedPreview (handlePreviewClick demo_doc ready_state) =
     Some (demo_doc\<lparr>largePreviewUrl := Some (lit ''data:image/png;p1;large'')\<rparr>) \<and>
   \<not> ready pending_state (key_of (cleanUrl (url demo_doc)) (page demo_doc)) \<and>
   handlePreviewClick demo_doc pending_state = pending_state"
proof -
  have p1: "paired ready_state"
    unfolding ready_state_def by (rule paired_state_after [OF demo_data_urls paired_initial])
  have p2: "paired pending_state"
    unfolding pending_state_def by (rule paired_beginPreview [OF paired_initial])
  have k: "key_of (url demo_doc) (page demo_doc) = lit ''a.pdf_1''"
    by (simp add: demo_doc_def key_of_def number_to_string_def digits.simps lit_def)
  have r1: "ready ready_state (lit ''a.pdf_1'')"
    by (simp add: ready_def ready_state_eq lit_def)
  have r2: "\<not> ready pending_state (lit ''a.pdf_1'')"
    by (simp add: ready_def pending_state_def beginPreview_def initial_state_def)
  have c: "cleanUrl (url demo_doc) = url demo_doc"
    by (simp add: demo_doc_def cleanUrl_def lit_def)
  from handlePreviewClick_iff_ready [OF p1, of demo_doc] handlePreviewClick_iff_ready [OF p2, of demo_doc]
    p1 p2 r1 r2 show ?thesis
    by (simp add: c k) (simp add: ready_state_eq)
qed

section \<open>Errors are never cleared\<close>

text \<open>
  Claim C9. No operation of the component removes a key from the error map. A later
  successful render of a key that has an error writes both bitmap caches and leaves the
  error map as it was, so a thumbnail that showed the error affordance still shows it.
\<close>

theorem previewErrors_never_removed:
  "(previewErrors st k = Some m \<longrightarrow> k \<in> dom (previewErrors (perform b be op st))) \<and>
   (previewErrors st (previewKey doc) = Some m \<and> configurePdfjs b = Inr (Some lib) \<and>
    snd (renderPages b lib doc) = Inr (smallCanvas, largeCanvas) \<longrightarrow>
      previews (state_after b pv doc st) (previewKey doc) = Some (toDataURL b smallCanvas) \<and>
      largePreviews (state_after b pv doc st) (previewKey doc) = Some (toDataURL b largeCanvas) \<and>
      previewErrors (state_after b pv doc st) = previewErrors st \<and>
      (thumbnailView st doc = OpenThePdf \<longrightarrow> thumbnailView (state_after b pv doc st) doc = OpenThePdf))"
proof (intro conjI impI)
  assume "previewErrors st k = Some m"
  then show "k \<in> dom (previewErrors (perform b be op st))" by (rule errors_kept_perform)
next
  assume a: "previewErrors st (previewKey doc) = Some m \<and> configurePdfjs b = Inr (Some lib) \<and>
    snd (renderPages b lib doc) = Inr (smallCanvas, largeCanvas)"
  then have eq: "state_after b pv doc st =
      st\<lparr>loadingPreviews := markPending pv (previewKey doc) (loadingPreviews st) - {previewKey doc},
         previews := (previews st)(previewKey doc \<mapsto> toDataURL b smallCanvas),
         largePreviews := (largePreviews st)(previewKey doc \<mapsto> toDataURL b largeCanvas)\<rparr>"
    by (simp add: state_after_success)
  show "previews (state_after b pv doc st) (previewKey doc) = Some (toDataURL b smallCanvas)"
    by (simp add: eq)
  show "largePreviews (state_after b pv doc st) (previewKey doc) = Some (toDataURL b largeCanvas)"
    by (simp add: eq)
  show "previewErrors (state_after b pv doc st) = previewErrors st"
    by (simp add: eq)
  assume "thumbnailView st doc = OpenThePdf"
  then have "truthy (previewErrors st (previewKey doc))"
    by (simp add: thumbnailView_def Let_def split: if_splits option.splits)
  then show "thumbnailView (state_after b pv doc st) doc = OpenThePdf"
    by (simp add: eq thumbnailView_def)
qed

theorem previewErrors_never_removed_witness:
  "previewErrors failed_state (previewKey demo_doc) = Some (lit ''Failed to fetch'') \<and>
   configurePdfjs demo_browser = Inr (Some demo_pdfjs) \<and>
   thumbnailView failed_state demo_doc = OpenThePdf \<and>
   previewKey demo_doc \<in> dom (previewErrors (perform demo_browser demo_backend RunPreviewEffect failed_state)) \<and>
   previews (state_after demo_browser (previews failed_state) demo_doc failed_state) (previewKey demo_doc)
      = Some (lit ''data:image/png;p1;small'') \<and>
   largePreviews (state_after demo_browser (previews failed_state) demo_doc failed_state) (previewKey demo_doc)
      = Some (lit ''data:image/png;p1;large'') \<and>
   previewErrors (state_after demo_browser (previews failed_state) demo_doc failed_state) (previewKey demo_doc)
      = Some (lit ''Failed to fetch'') \<and>
   thumbnailView (state_after demo_browser (previews failed_state) demo_doc failed_state) demo_doc = OpenThePdf"
proof -
  have e: "previewErrors failed_state (previewKey demo_doc) = Some (lit ''Failed to fetch'')"
    by (simp add: failed_state_eq demo_key)
  have v: "thumbnailView failed_state demo_doc = OpenThePdf"
    by (simp add: thumbnailView_def failed_state_eq demo_key lit_def)
  have r: "snd (renderPages demo_browser demo_pdfjs demo_doc) =
      Inr (\<lparr>width = 306, height = 396,
             painted = Some ((lit ''a.pdf'', 1), \<lparr>vscale = 0.5, vwidth = 306, vheight = 396\<rparr>)\<rparr>,
           \<lparr>width = 918, height = 1188,
             painted = Some ((lit ''a.pdf'', 1), \<lparr>vscale = 1.5, vwidth = 918, vheight = 1188\<rparr>)\<rparr>)"
    by (simp add: renderPages_def demo_defs Let_def)
  from previewErrors_never_removed [of failed_state "previewKey demo_doc" "lit ''Failed to fetch''"
      demo_browser demo_backend RunPreviewEffect demo_doc demo_pdfjs _ _ "previews failed_state"]
    e v r demo_configure
  show ?thesis
    by (simp add: demo_browser_def number_to_string_def digits.simps lit_def)
qed

section \<open>A failed key is rendered again\<close>

text \<open>
  Claim C2, as stated, fails: the key of \<open>demo_doc\<close> is in the error map of
  \<open>failed_state\<close>, and the next call of \<open>generatePreview\<close> for it does not return at
  once but opens the document again, whether the network is still gone or is back.
\<close>

theorem failed_key_is_rendered_again:
  "previewErrors failed_state (previewKey demo_doc) = Some (lit ''Failed to fetch'') \<and>
   calls_made offline_browser (previews failed_state) demo_doc failed_state
     = [GetDocument (lit ''a.pdf'')] \<and>
   calls_made demo_browser (previews failed_state) demo_doc failed_state
     = [GetDocument (lit ''a.pdf''), GetPage (lit ''a.pdf'') 1,
        RenderPage (lit ''a.pdf'', 1) \<lparr>vscale = 0.5, vwidth = 306, vheight = 396\<rparr>,
        RenderPage (lit ''a.pdf'', 1) \<lparr>vscale = 1.5, vwidth = 918, vheight = 1188\<rparr>]"
  by (simp add: failed_state_eq demo_key calls_made_def demo_generatePreview)
     (simp add: demo_defs eval_defs)

text \<open>
  Claim C2, amended. Take a key that is Failed and nothing else. A call of
  \<open>generatePreview\<close> for it that sees no cached bitmap keeps the key in the error map
  but does not return early: whenever the engine is available it invokes the renderer
  again, starting by opening the document. So does the effect that runs on every change
  of the message list: for every such document of the message list it opens the
  document again, and the key is still in the error map afterwards.
\<close>

theorem failed_key_stays_failed_but_retried:
  assumes "configurePdfjs b = Inr (Some lib)"
  shows "(failed_only st (previewKey doc) \<and> \<not> truthy (pv (previewKey doc)) \<longrightarrow>
            previewKey doc \<in> dom (previewErrors (state_after b pv doc st)) \<and>
            (\<exists>rest. calls_made b pv doc st = GetDocument (url doc) # rest)) \<and>
         (d \<in> set (all_documents (messages st)) \<and> failed_only st (previewKey d) \<longrightarrow>
            previewKey d \<in> dom (previewErrors (snd (previewEffect b st))) \<and>
            GetDocument (url d) \<in> set (fst (previewEffect b st)))"
proof (intro conjI impI)
  assume a: "failed_only st (previewKey doc) \<and> \<not> truthy (pv (previewKey doc))"
  then obtain m where "previewErrors st (previewKey doc) = Some m"
    by (auto simp: failed_only_def)
  then show "previewKey doc \<in> dom (previewErrors (state_after b pv doc st))"
    by (rule errors_kept_state_after)
  from renderPages_opens_first [of b lib doc]
  show "\<exists>rest. calls_made b pv doc st = GetDocument (url doc) # rest"
    by (simp add: calls_made_engine [OF assms])
next
  assume a: "d \<in> set (all_documents (messages st)) \<and> failed_only st (previewKey d)"
  then have "previewKey d \<in> dom (previewErrors st)" by (simp add: failed_only_def)
  then show "previewKey d \<in> dom (previewErrors (snd (previewEffect b st)))"
    unfolding previewEffect_def by (rule errors_kept_submitAll)
  from a show "GetDocument (url d) \<in> set (fst (previewEffect b st))"
    unfolding previewEffect_def by (simp add: submitAll_opens_each [OF assms])
qed

theorem failed_key_stays_failed_but_retried_witness:
  "failed_only failed_cited_state (previewKey demo_doc) \<and>
   \<not> truthy (previews failed_cited_state (previewKey demo_doc)) \<and>
   demo_doc \<in> set (all_documents (messages failed_cited_state)) \<and>
   previewKey demo_doc \<in> dom (previewErrors
     (state_after offline_browser (previews failed_cited_state) demo_doc failed_cited_state)) \<and>
   hd (calls_made offline_browser (previews failed_cited_state) demo_doc failed_cited_state)
     = GetDocument (lit ''a.pdf'') \<and>
   previewKey demo_doc \<in> dom (previewErrors (snd (previewEffect offline_browser failed_cited_state))) \<and>
   GetDocument (lit ''a.pdf'') \<in> set (fst (previewEffect offline_browser failed_cited_state))"
proof -
  have f: "failed_only failed_cited_state (previewKey demo_doc)"
    by (simp add: failed_only_def failed_cited_state_def failed_state_eq demo_key initial_state_def)
  have t: "\<not> truthy (previews failed_cited_state (previewKey demo_doc))"
    using f by (simp add: failed_only_def)
  have d: "demo_doc \<in> set (all_documents (messages failed_cited_state))"
    by (simp add: failed_cited_state_def all_documents_def)
  have u: "url demo_doc = lit ''a.pdf''" by (simp add: demo_doc_def)
  from failed_key_stays_failed_but_retried [OF offline_configure, of failed_cited_state demo_doc
      "previews failed_cited_state" demo_doc] f t d
  show ?thesis by (auto simp: u)
qed

section \<open>One render per key\<close>

text \<open>
  Claim C1 fails on the code. A call that finds the key Ready (both bitmaps cached) and
  a call that finds the key in the in-flight set both run the whole render pipeline
  again, and the effect that submits two messages citing the same page opens the
  document twice: the check of lines 64-69 only decides whether the key is added to the
  in-flight set.
\<close>

theorem cached_or_pending_key_is_rendered_again:
  "ready ready_state (previewKey demo_doc) \<and>
   calls_made demo_browser (previews ready_state) demo_doc ready_state
     = [GetDocument (lit ''a.pdf''), GetPage (lit ''a.pdf'') 1,
        RenderPage (lit ''a.pdf'', 1) \<lparr>vscale = 0.5, vwidth = 306, vheight = 396\<rparr>,
        RenderPage (lit ''a.pdf'', 1) \<lparr>vscale = 1.5, vwidth = 918, vheight = 1188\<rparr>] \<and>
   previewKey demo_doc \<in> loadingPreviews pending_state \<and>
   calls_made demo_browser (previews pending_state) demo_doc pending_state
     = [GetDocument (lit ''a.pdf''), GetPage (lit ''a.pdf'') 1,
        RenderPage (lit ''a.pdf'', 1) \<lparr>vscale = 0.5, vwidth = 306, vheight = 396\<rparr>,
        RenderPage (lit ''a.pdf'', 1) \<lparr>vscale = 1.5, vwidth = 918, vheight = 1188\<rparr>] \<and>
   length (filter (\<lambda>ev. ev = GetDocument (lit ''a.pdf'')) (fst (previewEffect demo_browser twice_cited_state))) = 2"
  by (simp add: calls_made_def demo_generatePreview ready_def ready_state_eq demo_key pending_state_def
      beginPreview_def markPending_def previewEffect_def twice_cited_state_def all_documents_def
      initial_state_def)
     (simp add: lit_def)

section \<open>A Ready key can come to show an error\<close>

text \<open>
  Claim C7 fails on the code. The key of \<open>demo_doc\<close> is Ready and its thumbnail shows
  the small bitmap; a later call of \<open>generatePreview\<close> renders again, and when that
  render fails the key gets an error entry and the thumbnail shows the error affordance,
  although both bitmaps are still cached.
\<close>

theorem ready_key_regresses_to_failed:
  "ready ready_state (previewKey demo_doc) \<and>
   thumbnailView ready_state demo_doc = Thumbnail (lit ''data:image/png;p1;small'') \<and>
   ready (state_after offline_browser (previews ready_state) demo_doc ready_state) (previewKey demo_doc) \<and>
   previewErrors (state_after offline_browser (previews ready_state) demo_doc ready_state) (previewKey demo_doc)
     = Some (lit ''Failed to fetch'') \<and>
   thumbnailView (state_after offline_browser (previews ready_state) demo_doc ready_state) demo_doc = OpenThePdf"
  by (simp add: ready_state_eq demo_key ready_def thumbnailView_def)
     (simp add: demo_defs eval_defs)

end
